theory Spec2Isabelle
  imports Main
begin

section \<open>Values of the host language\<close>

text \<open>
  The bot is TypeScript. Its \<^verbatim>\<open>number\<close> values are modelled as exact integers plus
  \<^verbatim>\<open>NaN\<close>: every number the bot computes starts from a decimal digit string and is
  only multiplied by integer constants. Rounding above \<open>2^53\<close>, infinities and fractions
  are outside the model. Strings are lists of 8-bit characters, read as ASCII text: the
  case mapping, the classes of digits and of word characters and the white space of the
  host language are modelled on ASCII.
\<close>

datatype number = Num int | NaN

text \<open>Truthiness of a number: \<^verbatim>\<open>0\<close> and \<^verbatim>\<open>NaN\<close> are falsy.\<close>

fun truthyNumber :: "number \<Rightarrow> bool" where
  "truthyNumber (Num n) = (n \<noteq> 0)"
| "truthyNumber NaN = False"

text \<open>\<^verbatim>\<open>x * k\<close> and \<^verbatim>\<open>x + y\<close> on numbers.\<close>

fun times_number :: "number \<Rightarrow> int \<Rightarrow> number" where
  "times_number (Num n) k = Num (n * k)"
| "times_number NaN k = NaN"

fun plus_number :: "number \<Rightarrow> number \<Rightarrow> number" where
  "plus_number (Num a) (Num b) = Num (a + b)"
| "plus_number _ _ = NaN"

text \<open>Decimal rendering, as a template literal \<^verbatim>\<open>${n}\<close> prints an integer number.\<close>

definition digitChar :: "nat \<Rightarrow> char" where
  "digitChar d =
     (if d = 0 then CHR ''0'' else if d = 1 then CHR ''1'' else if d = 2 then CHR ''2''
      else if d = 3 then CHR ''3'' else if d = 4 then CHR ''4'' else if d = 5 then CHR ''5''
      else if d = 6 then CHR ''6'' else if d = 7 then CHR ''7'' else if d = 8 then CHR ''8''
      else CHR ''9'')"

fun natToString :: "nat \<Rightarrow> string" where
  "natToString n =
     (if n < 10 then [digitChar n] else natToString (n div 10) @ [digitChar (n mod 10)])"

declare natToString.simps [simp del]

definition numberToString :: "number \<Rightarrow> string" where
  "numberToString x =
     (case x of
        NaN \<Rightarrow> ''NaN''
      | Num n \<Rightarrow> if n < 0 then ''-'' @ natToString (nat (- n)) else natToString (nat n))"

text \<open>A template literal prints a missing string as \<^verbatim>\<open>undefined\<close>.\<close>

definition stringToString :: "string option \<Rightarrow> string" where
  "stringToString x = (case x of None \<Rightarrow> ''undefined'' | Some s \<Rightarrow> s)"

text \<open>Truthiness of an optional string: \<^verbatim>\<open>undefined\<close> and the empty string are falsy.\<close>

definition truthyString :: "string option \<Rightarrow> bool" where
  "truthyString x = (case x of None \<Rightarrow> False | Some s \<Rightarrow> s \<noteq> [])"

definition startsWith :: "string \<Rightarrow> string \<Rightarrow> bool" where
  "startsWith s p = (take (length p) s = p)"

text \<open>\<^verbatim>\<open>toLowerCase\<close> on the letters A to Z; other characters stay.\<close>

definition lowerChar :: "char \<Rightarrow> char" where
  "lowerChar c =
     (case map_of (zip ''ABCDEFGHIJKLMNOPQRSTUVWXYZ'' ''abcdefghijklmnopqrstuvwxyz'') c of
        Some l \<Rightarrow> l
      | None \<Rightarrow> c)"

definition toLowerCase :: "string \<Rightarrow> string" where
  "toLowerCase s = map lowerChar s"

definition isDigit :: "char \<Rightarrow> bool" where
  "isDigit c = (c \<in> set ''0123456789'')"

definition digitValue :: "char \<Rightarrow> int" where
  "digitValue c = int (of_char c) - 48"

text \<open>
  \<^verbatim>\<open>Number(s)\<close> on the strings the patterns hand to it. A digit string is read in
  base ten. The tokens \<^verbatim>\<open>A\<close>, \<^verbatim>\<open>An\<close> and \<^verbatim>\<open>AN\<close> of the quantity group, which
  the flag \<^verbatim>\<open>i\<close> admits and which do not start with \<^verbatim>\<open>a\<close>, are no numerals and
  give \<^verbatim>\<open>NaN\<close>. Strings with signs, fractions, exponents or blanks never reach it;
  they are taken to \<^verbatim>\<open>NaN\<close> here.
\<close>

definition Number :: "string \<Rightarrow> number" where
  "Number s =
     (if s \<noteq> [] \<and> list_all isDigit s
      then Num (foldl (\<lambda>acc c. acc * 10 + digitValue c) 0 s)
      else NaN)"

section \<open>Message definitions\<close>

datatype TimeUnits = TimeUnits_none | TimeUnits_seconds | TimeUnits_minutes | TimeUnits_hours

datatype Message =
    HelpMessage
  | AddReminderMessage string number TimeUnits
  | AddReminderNoTimeMessage string
  | ListRemindersMessage
  | ClearAllRemindersMessage
  | ClearReminderMessage number
  | Time number TimeUnits
  | Confirm bool
  | UnknownMessage

section \<open>Parsing of durations\<close>

definition parseQuantity :: "string \<Rightarrow> number" where
  "parseQuantity quantity = (if startsWith quantity ''a'' then Num 1 else Number quantity)"

definition parseUnit :: "string \<Rightarrow> TimeUnits" where
  "parseUnit unit =
     (if startsWith (toLowerCase unit) ''sec'' then TimeUnits_seconds
      else if startsWith (toLowerCase unit) ''min'' then TimeUnits_minutes
      else if startsWith (toLowerCase unit) ''hour'' then TimeUnits_hours
      else TimeUnits_none)"

text \<open>
  The \<^verbatim>\<open>switch\<close> has no \<^verbatim>\<open>break\<close>: entered at \<^verbatim>\<open>minutes\<close>, control runs on
  into the statement of \<^verbatim>\<open>hours\<close>. Each \<^verbatim>\<open>let\<close> below is one statement of the source.
\<close>

definition convertDurationToSeconds :: "number \<Rightarrow> TimeUnits \<Rightarrow> number" where
  "convertDurationToSeconds quantity unit =
     (let seconds = quantity;
          seconds = (if unit = TimeUnits_minutes then times_number seconds 60 else seconds);
          seconds = (if unit = TimeUnits_minutes \<or> unit = TimeUnits_hours
                     then times_number seconds 3600 else seconds)
      in seconds)"

section \<open>The intent parser\<close>

subsection \<open>Patterns\<close>

text \<open>
  The regular expressions of the host language, for the constructs the patterns of the
  bot use. Every pattern carries the flag \<^verbatim>\<open>i\<close>, so a literal character matches in
  either case; \<^verbatim>\<open>.\<close> matches any character but a line terminator and \<^verbatim>\<open>\d\<close> a
  digit; \<open>Group\<close> is a named capture group \<^verbatim>\<open>(?<name>...)\<close>, \<open>Star\<close> and \<open>Opt\<close>
  are the greedy quantifiers \<^verbatim>\<open>*\<close> and \<^verbatim>\<open>?\<close>.
\<close>

datatype regexp =
    Empty
  | Chr char
  | AnyChar
  | Digit
  | Seq regexp regexp
  | Alt regexp regexp
  | Star regexp
  | Opt regexp
  | Group string regexp

type_synonym groups = "string \<rightharpoonup> string"

definition isLineTerminator :: "char \<Rightarrow> bool" where
  "isLineTerminator c = (c = CHR 0x0A \<or> c = CHR 0x0D)"

text \<open>
  The backtracking matcher: all the ways in which a pattern matches at the start of the
  input, each with the input that is left and the groups captured, in the order in which
  backtracking tries them (the left alternative first, the longer repetition first). A
  repetition ends when an iteration consumes nothing. A match leaves a suffix of the
  input, which is what the tests on the lengths say: they make the recursion well
  founded. No group of the bot's patterns stands inside a repetition of several
  iterations, so the reset of captures at each iteration is not modelled.
\<close>

function matches :: "regexp \<Rightarrow> string \<Rightarrow> groups \<Rightarrow> (string \<times> groups) list" where
  "matches Empty s g = [(s, g)]"
| "matches (Chr a) s g =
     (case s of [] \<Rightarrow> [] | c # cs \<Rightarrow> if lowerChar c = lowerChar a then [(cs, g)] else [])"
| "matches AnyChar s g =
     (case s of [] \<Rightarrow> [] | c # cs \<Rightarrow> if isLineTerminator c then [] else [(cs, g)])"
| "matches Digit s g =
     (case s of [] \<Rightarrow> [] | c # cs \<Rightarrow> if isDigit c then [(cs, g)] else [])"
| "matches (Seq r1 r2) s g =
     concat (map (\<lambda>(s', g'). if length s' \<le> length s then matches r2 s' g' else [])
               (matches r1 s g))"
| "matches (Alt r1 r2) s g = matches r1 s g @ matches r2 s g"
| "matches (Star r) s g =
     concat (map (\<lambda>(s', g'). if length s' < length s then matches (Star r) s' g' else [])
               (matches r s g)) @ [(s, g)]"
| "matches (Opt r) s g =
     filter (\<lambda>(s', g'). length s' < length s) (matches r s g) @ [(s, g)]"
| "matches (Group n r) s g =
     map (\<lambda>(s', g'). (s', g'(n \<mapsto> take (length s - length s') s))) (matches r s g)"
  by pat_completeness auto
termination
  by (relation "(\<lambda>(r, s, g). length s) <*mlex*> measure (\<lambda>(r, s, g). size r)")
     (auto simp: wf_mlex mlex_less mlex_leq)

declare matches.simps [simp del]

text \<open>
  \<^verbatim>\<open>/^r$/i.exec(s)\<close>: the groups of the first match that consumes the whole input,
  if there is one.
\<close>

definition exec :: "regexp \<Rightarrow> string \<Rightarrow> groups option" where
  "exec r s = map_option snd (find (\<lambda>(s', g). s' = []) (matches r s Map.empty))"

text \<open>A literal string, a sequence of patterns and a choice \<^verbatim>\<open>(?:a|b|c)\<close>.\<close>

definition lit :: "string \<Rightarrow> regexp" where
  "lit s = foldr (\<lambda>c r. Seq (Chr c) r) s Empty"

definition seqs :: "regexp list \<Rightarrow> regexp" where
  "seqs rs = foldr Seq rs Empty"

fun alts :: "regexp list \<Rightarrow> regexp" where
  "alts [] = Empty"
| "alts [r] = r"
| "alts (r # rs) = Alt r (alts rs)"

subsection \<open>The parser\<close>

definition isWhiteSpace :: "char \<Rightarrow> bool" where
  "isWhiteSpace c = (c \<in> {CHR 0x09, CHR 0x0A, CHR 0x0B, CHR 0x0C, CHR 0x0D, CHR '' ''})"

definition trim :: "string \<Rightarrow> string" where
  "trim s = rev (dropWhile isWhiteSpace (rev (dropWhile isWhiteSpace s)))"

fun firstGroups :: "regexp list \<Rightarrow> string \<Rightarrow> groups option" where
  "firstGroups [] s = None"
| "firstGroups (r # rs) s =
     (case exec r s of Some g \<Rightarrow> Some g | None \<Rightarrow> firstGroups rs s)"

fun firstIntent :: "(regexp list \<times> (groups \<Rightarrow> 'a)) list \<Rightarrow> 'a \<Rightarrow> string \<Rightarrow> 'a" where
  "firstIntent [] fallback s = fallback"
| "firstIntent ((regexps, func) # intents) fallback s =
     (case firstGroups regexps s of
        Some g \<Rightarrow> func g
      | None \<Rightarrow> firstIntent intents fallback s)"

text \<open>
  Modelled from the spec: \<^verbatim>\<open>createParser\<close> of the module \<^verbatim>\<open>./parser\<close>, which is
  not among the sources. The input is trimmed; the intents are tried in the order of
  their declaration, and the patterns of an intent in their order; the first pattern
  that matches the whole trimmed input wins, and its named groups go to the function of
  its intent; when no pattern matches, the result is the fallback.
\<close>

definition createParser ::
  "(regexp list \<times> (groups \<Rightarrow> 'a)) list \<Rightarrow> 'a \<Rightarrow> string \<Rightarrow> 'a" where
  "createParser intents fallback message = firstIntent intents fallback (trim message)"

subsection \<open>The intents of the bot\<close>

text \<open>
  \<^verbatim>\<open>\d+\<close>, \<^verbatim>\<open>\d+|a|an\<close> and \<^verbatim>\<open>(?:second|minute|hour)s?\<close>; the four named groups;
  \<^verbatim>\<open>(?:remind|tell) me (?:about|of) \<close> and \<^verbatim>\<open>(?:the|my) \<close>, each with the blank
  that ends it.
\<close>

definition digits :: regexp where
  "digits = Seq Digit (Star Digit)"

definition quantityPattern :: regexp where
  "quantityPattern = alts [digits, lit ''a'', lit ''an'']"

definition unitPattern :: regexp where
  "unitPattern =
     Seq (alts [lit ''second'', lit ''minute'', lit ''hour'']) (Opt (Chr (CHR ''s'')))"

definition quantityGroup :: regexp where
  "quantityGroup = Group ''quantity'' quantityPattern"

definition unitGroup :: regexp where
  "unitGroup = Group ''unit'' unitPattern"

definition textGroup :: regexp where
  "textGroup = Group ''text'' (Star AnyChar)"

definition idGroup :: regexp where
  "idGroup = Group ''id'' digits"

definition remindMeAbout :: regexp where
  "remindMeAbout =
     seqs [alts [lit ''remind'', lit ''tell''], lit '' me '', alts [lit ''about'', lit ''of''],
           lit '' '']"

definition theOrMy :: regexp where
  "theOrMy = Seq (alts [lit ''the'', lit ''my'']) (lit '' '')"

text \<open>The \<^verbatim>\<open>regexps\<close> of the nine intents, in the order of the source.\<close>

definition helpRegexps :: "regexp list" where
  "helpRegexps = [seqs [lit ''help'', Opt (Chr (CHR ''.''))]]"

definition addReminderRegexps :: "regexp list" where
  "addReminderRegexps =
     [seqs [remindMeAbout, Star theOrMy, textGroup, lit '' in '', quantityGroup, lit '' '',
            unitGroup, Opt (Chr (CHR ''.''))],
      seqs [lit ''in '', quantityGroup, lit '' '', unitGroup, Opt (Chr (CHR '','')), lit '' '',
            remindMeAbout, theOrMy, lit '' '', textGroup, Opt (Chr (CHR ''.''))]]"

definition addReminderNoTimeRegexps :: "regexp list" where
  "addReminderNoTimeRegexps = [seqs [remindMeAbout, Star theOrMy, Opt textGroup]]"

definition listRemindersRegexps :: "regexp list" where
  "listRemindersRegexps =
     [seqs [alts [lit ''list'', lit ''show'', lit ''tell''], lit '' '',
            Star (Seq (alts [lit ''me'', lit ''all'', lit ''of'', lit ''my'']) (lit '' '')),
            lit ''reminders'', Opt (Chr (CHR ''.''))]]"

definition clearAllRemindersRegexps :: "regexp list" where
  "clearAllRemindersRegexps =
     [seqs [alts [lit ''clear'', lit ''delete'', lit ''remove'', lit ''forget''], lit '' '',
            Star (Seq (alts [lit ''all'', lit ''of'', lit ''my'']) (lit '' '')),
            lit ''reminders'', Opt (Chr (CHR ''.''))]]"

definition clearReminderRegexps :: "regexp list" where
  "clearReminderRegexps =
     [seqs [alts [lit ''clear'', lit ''delete'', lit ''remove'', lit ''forget''], lit '' '',
            Opt (lit ''reminder ''), idGroup, Opt (Chr (CHR ''.''))]]"

definition timeRegexps :: "regexp list" where
  "timeRegexps =
     [seqs [Star (Seq (lit ''it takes'') (lit '' '')), quantityGroup, lit '' '', unitGroup,
            Opt (Chr (CHR ''.''))]]"

definition confirmRegexps :: "regexp list" where
  "confirmRegexps =
     [seqs [alts [lit ''yes'', lit ''sure'', lit ''yeah'', lit ''ok'', lit ''okay''],
            Opt (Chr (CHR ''.''))]]"

definition declineRegexps :: "regexp list" where
  "declineRegexps =
     [seqs [alts [lit ''no'', lit ''nope'', lit ''nevermind''], Opt (Chr (CHR ''.''))]]"

text \<open>
  The \<^verbatim>\<open>func\<close> of the intents that read groups. The result is \<open>None\<close> where a group
  the function reads did not take part in the match: the host language then has no
  command of the declared type (\<^verbatim>\<open>parseQuantity\<close> and \<^verbatim>\<open>parseUnit\<close> throw on
  \<^verbatim>\<open>undefined\<close>, and a text that is \<^verbatim>\<open>undefined\<close> is no string).
\<close>

definition addReminderFunc :: "groups \<Rightarrow> Message option" where
  "addReminderFunc g =
     (case (g ''quantity'', g ''text'', g ''unit'') of
        (Some quantity, Some text, Some unit) \<Rightarrow>
          Some (AddReminderMessage text (parseQuantity quantity) (parseUnit unit))
      | _ \<Rightarrow> None)"

definition addReminderNoTimeFunc :: "groups \<Rightarrow> Message option" where
  "addReminderNoTimeFunc g =
     (case g ''text'' of Some text \<Rightarrow> Some (AddReminderNoTimeMessage text) | None \<Rightarrow> None)"

definition clearReminderFunc :: "groups \<Rightarrow> Message option" where
  "clearReminderFunc g =
     (case g ''id'' of Some i \<Rightarrow> Some (ClearReminderMessage (Number i)) | None \<Rightarrow> None)"

definition timeFunc :: "groups \<Rightarrow> Message option" where
  "timeFunc g =
     (case (g ''quantity'', g ''unit'') of
        (Some quantity, Some unit) \<Rightarrow> Some (Time (parseQuantity quantity) (parseUnit unit))
      | _ \<Rightarrow> None)"

definition parseMessage :: "string \<Rightarrow> Message option" where
  "parseMessage =
     createParser
       [(helpRegexps, \<lambda>g. Some HelpMessage),
        (addReminderRegexps, addReminderFunc),
        (addReminderNoTimeRegexps, addReminderNoTimeFunc),
        (listRemindersRegexps, \<lambda>g. Some ListRemindersMessage),
        (clearAllRemindersRegexps, \<lambda>g. Some ClearAllRemindersMessage),
        (clearReminderRegexps, clearReminderFunc),
        (timeRegexps, timeFunc),
        (confirmRegexps, \<lambda>g. Some (Confirm True)),
        (declineRegexps, \<lambda>g. Some (Confirm False))]
       (Some UnknownMessage)"

section \<open>Domain logic\<close>

definition helpMessage :: string where
  "helpMessage =
     ''I am a reminder bot, here to help you get organized. Here are some of the things you can ask me to do:\<newline>'' @
     ''\<newline>'' @
     ''<ul>\<newline>'' @
     ''  <li>Add reminders, e.g. <tt>remind me to make dinner in 5 minutes</tt>.</li>\<newline>'' @
     ''  <li>List reminders, e.g. <tt>show all reminders</tt>.\<newline>'' @
     ''  <li>Clear reminders, e.g. <tt>clear all reminders</tt> or <tt>clear reminder 3</tt>.\<newline>'' @
     ''</ul>\<newline>'' @
     ''\<newline>'' @
     ''At the moment I am not very sophisticated, but maybe you can help make me better!''"

text \<open>
  A \<^verbatim>\<open>Reminder\<close> holds the handle of its pending timeout; a \<^verbatim>\<open>Date\<close> is its time
  value in milliseconds. The fields of the two record types carry a prefix, since both
  types of the source have an \<^verbatim>\<open>id\<close> and a \<^verbatim>\<open>text\<close>.
\<close>

record Reminder =
  r_id :: int
  r_date :: number
  r_text :: string
  r_timeout :: nat

record ReminderInfo =
  i_id :: int
  i_quantity :: "number option"
  i_unit :: "TimeUnits option"
  i_text :: "string option"

text \<open>
  The three closures the executor hands to \<^verbatim>\<open>setTimeout\<close>, each with the constants
  it captures (\<^verbatim>\<open>text\<close>, \<^verbatim>\<open>seconds\<close>, \<^verbatim>\<open>id\<close>): the one of the
  \<^verbatim>\<open>add-reminder\<close> case, of the \<^verbatim>\<open>add-reminder-no-time\<close> case and of the
  \<^verbatim>\<open>time\<close> case.
\<close>

datatype Callback =
    AddReminderCallback string number int
  | NoTimeCallback string int
  | TimeCallback "string option" number int

record Timeout =
  t_handle :: nat
  t_delay :: number
  t_callback :: Callback

text \<open>
  The session state. \<^verbatim>\<open>ws\<close> is the socket, modelled by the frames sent on it so far.
  \<^verbatim>\<open>timeouts\<close> and \<^verbatim>\<open>timeoutCount\<close> are the host's timer facility: the timeouts
  that are pending, and the number of handles handed out.
\<close>

record State =
  ws :: "string list"
  reminders :: "Reminder list"
  nextId :: int
  dialogHistory :: "ReminderInfo list"
  userModel :: "string \<rightharpoonup> number"
  timeouts :: "Timeout list"
  timeoutCount :: nat

definition send :: "string \<Rightarrow> State \<Rightarrow> State" where
  "send frame state = state\<lparr>ws := ws state @ [frame]\<rparr>"

definition setTimeout :: "Callback \<Rightarrow> number \<Rightarrow> State \<Rightarrow> nat \<times> State" where
  "setTimeout cb ms state =
     (timeoutCount state,
      state\<lparr>timeouts := timeouts state @
                 [\<lparr>t_handle = timeoutCount state, t_delay = ms, t_callback = cb\<rparr>],
            timeoutCount := timeoutCount state + 1\<rparr>)"

definition clearTimeout :: "nat \<Rightarrow> State \<Rightarrow> State" where
  "clearTimeout h state = state\<lparr>timeouts := filter (\<lambda>t. t_handle t \<noteq> h) (timeouts state)\<rparr>"

text \<open>
  \<^verbatim>\<open>s.replace(/\bab\b/g, r)\<close> for a word of two letters \<open>a\<close>, \<open>b\<close>: the flag says
  whether the character before the position is a word character, so that \<^verbatim>\<open>\b\<close> holds
  before a letter exactly when it is unset, and after a letter exactly when no word
  character follows.
\<close>

definition isWordChar :: "char \<Rightarrow> bool" where
  "isWordChar c =
     (c \<in> set ''abcdefghijklmnopqrstuvwxyzABCDEFGHIJKLMNOPQRSTUVWXYZ0123456789_'')"

fun replaceWord :: "char \<Rightarrow> char \<Rightarrow> string \<Rightarrow> bool \<Rightarrow> string \<Rightarrow> string" where
  "replaceWord a b r p (c # d # s) =
     (if \<not> p \<and> c = a \<and> d = b \<and> (case s of [] \<Rightarrow> True | e # _ \<Rightarrow> \<not> isWordChar e)
      then r @ replaceWord a b r True s
      else c # replaceWord a b r (isWordChar c) (d # s))"
| "replaceWord a b r p s = s"

text \<open>\<^verbatim>\<open>.replace(/\bmy\b/g, 'your').replace(/\bme\b/g, 'you')\<close>\<close>

definition rewritePronouns :: "string \<Rightarrow> string" where
  "rewritePronouns text =
     replaceWord (CHR ''m'') (CHR ''e'') ''you'' False
       (replaceWord (CHR ''m'') (CHR ''y'') ''your'' False text)"

definition fallbackReply :: string where
  "fallbackReply = ''I'm sorry, I don't understand what you mean.''"

text \<open>\<^verbatim>\<open>Ok, I will remind you about ... in ${seconds} ${unit}.\<close> after the given opening.\<close>

definition scheduledReply :: "string \<Rightarrow> string \<Rightarrow> number \<Rightarrow> string" where
  "scheduledReply opening text seconds =
     (let unit = (if seconds = Num 1 then ''second'' else ''seconds'')
      in opening @ text @ '' in '' @ numberToString seconds @ '' '' @ unit @ ''.'')"

text \<open>
  \<^verbatim>\<open>new Date()\<close> followed by \<^verbatim>\<open>date.setSeconds(date.getSeconds() + seconds)\<close>:
  the clock reading \<open>now\<close> (milliseconds) moved on by the seconds.
\<close>

definition dateAfter :: "int \<Rightarrow> number \<Rightarrow> number" where
  "dateAfter now seconds = plus_number (Num now) (times_number seconds 1000)"

definition case_add_reminder ::
  "int \<Rightarrow> State \<Rightarrow> string \<Rightarrow> number \<Rightarrow> TimeUnits \<Rightarrow> string option \<times> State" where
  "case_add_reminder now state mtext quantity timeUnit =
     (let text = rewritePronouns mtext;
          rid = nextId state;
          state = state\<lparr>nextId := nextId state + 1\<rparr>;
          state = state\<lparr>dialogHistory := dialogHistory state @
                    [\<lparr>i_id = rid, i_quantity = Some quantity, i_unit = Some timeUnit,
                      i_text = Some text\<rparr>]\<rparr>;
          seconds = convertDurationToSeconds quantity timeUnit;
          date = dateAfter now seconds;
          (timeout, state) =
             setTimeout (AddReminderCallback text seconds rid) (times_number seconds 1000) state;
          state = state\<lparr>reminders := reminders state @
                    [\<lparr>r_id = rid, r_date = date, r_text = text, r_timeout = timeout\<rparr>]\<rparr>
      in (Some (scheduledReply ''Ok, I will remind you about '' text seconds), state))"

text \<open>
  \<^verbatim>\<open>seconds\<close> stays \<^verbatim>\<open>undefined\<close> unless the map has the text; \<^verbatim>\<open>!seconds\<close>
  holds for \<^verbatim>\<open>undefined\<close>, \<^verbatim>\<open>0\<close> and \<^verbatim>\<open>NaN\<close>.
\<close>

definition case_add_reminder_no_time ::
  "int \<Rightarrow> State \<Rightarrow> string \<Rightarrow> string option \<times> State" where
  "case_add_reminder_no_time now state mtext =
     (let text = rewritePronouns mtext;
          rid = nextId state;
          state = state\<lparr>nextId := nextId state + 1\<rparr>;
          state = state\<lparr>dialogHistory := dialogHistory state @
                    [\<lparr>i_id = rid, i_quantity = None, i_unit = None, i_text = Some text\<rparr>]\<rparr>
      in case userModel state text of
           None \<Rightarrow> (Some (''How long does your '' @ text @ '' take?''), state)
         | Some seconds \<Rightarrow>
             if \<not> truthyNumber seconds
             then (Some (''How long does your '' @ text @ '' take?''), state)
             else
               (let date = dateAfter now seconds;
                    (timeout, state) =
                       setTimeout (NoTimeCallback text rid) (times_number seconds 1000) state;
                    state = state\<lparr>reminders := reminders state @
                              [\<lparr>r_id = rid, r_date = date, r_text = text,
                                r_timeout = timeout\<rparr>]\<rparr>
                in (Some (scheduledReply ''Ok, I will remind you about '' text seconds),
                    state)))"

text \<open>
  \<^verbatim>\<open>currentReminder\<close> is the last object of the history array, and the two assignments
  change it in place.
\<close>

definition case_time ::
  "int \<Rightarrow> State \<Rightarrow> number \<Rightarrow> TimeUnits \<Rightarrow> string option \<times> State" where
  "case_time now state quantity timeUnit =
     (if length (dialogHistory state) = 0 then (Some fallbackReply, state)
      else
        (let k = length (dialogHistory state) - 1;
             currentReminder = dialogHistory state ! k;
             currentReminder = currentReminder\<lparr>i_quantity := Some quantity\<rparr>;
             currentReminder = currentReminder\<lparr>i_unit := Some timeUnit\<rparr>;
             state = state\<lparr>dialogHistory := (dialogHistory state)[k := currentReminder]\<rparr>;
             seconds = convertDurationToSeconds quantity timeUnit;
             rid = i_id currentReminder;
             date = dateAfter now seconds;
             text = i_text currentReminder;
             (timeout, state) =
                setTimeout (TimeCallback text seconds rid) (times_number seconds 1000) state;
             state =
               (if truthyString text
                then state\<lparr>reminders := reminders state @
                       [\<lparr>r_id = rid, r_date = date, r_text = stringToString text,
                         r_timeout = timeout\<rparr>]\<rparr>
                else state)
         in (Some (scheduledReply ''Ok, I will remind you about your '' (stringToString text)
                     seconds),
             state)))"

text \<open>\<^verbatim>\<open>Math.round((date.getTime() - now) / 1000)\<close>: halves round up.\<close>

definition secondsRemaining :: "int \<Rightarrow> number \<Rightarrow> number" where
  "secondsRemaining now date =
     (case date of Num d \<Rightarrow> Num ((d - now + 500) div 1000) | NaN \<Rightarrow> NaN)"

definition reminderRow :: "int \<Rightarrow> Reminder \<Rightarrow> string" where
  "reminderRow now r =
     ''\<newline>'' @
     ''              <tr>\<newline>'' @
     ''                <td>'' @ numberToString (Num (r_id r)) @ ''</td>\<newline>'' @
     ''                <td>'' @ numberToString (secondsRemaining now (r_date r)) @ ''</td>\<newline>'' @
     ''                <td>'' @ r_text r @ ''</td>\<newline>'' @
     ''              </tr>''"

definition case_list_reminders :: "int \<Rightarrow> State \<Rightarrow> string option \<times> State" where
  \<open>case_list_reminders now state =
     (if length (reminders state) = 0 then (Some ''You have no reminders.'', state)
      else
        (Some (''\<newline>'' @
               ''      <table border="1">\<newline>'' @
               ''        <thead>\<newline>'' @
               ''          <tr>\<newline>'' @
               ''            <th>id</th>\<newline>'' @
               ''            <th>seconds remaining</th>\<newline>'' @
               ''            <th>text</th>\<newline>'' @
               ''          </tr>\<newline>'' @
               ''        </thead>\<newline>'' @
               ''        <tbody>\<newline>'' @
               ''          '' @ concat (map (reminderRow now) (reminders state)) @ ''\<newline>'' @
               ''        </tbody>\<newline>'' @
               ''      </table>''),
         state))\<close>

definition clearAllReminders :: "State \<Rightarrow> State" where
  "clearAllReminders state =
     (let state = fold (\<lambda>r. clearTimeout (r_timeout r)) (reminders state) state
      in state\<lparr>reminders := []\<rparr>)"

definition case_clear_all_reminders :: "State \<Rightarrow> string option \<times> State" where
  "case_clear_all_reminders state =
     (Some ''Ok, I have cleared all of your reminders.'', clearAllReminders state)"

text \<open>
  \<^verbatim>\<open>filter((r) => r !== reminder)\<close> compares objects, and every element of the array
  is an object of its own: the array loses the one element that \<^verbatim>\<open>find\<close> returned,
  the first with the id.
\<close>

fun withoutFound :: "('a \<Rightarrow> bool) \<Rightarrow> 'a list \<Rightarrow> 'a list" where
  "withoutFound P [] = []"
| "withoutFound P (x # xs) = (if P x then xs else x # withoutFound P xs)"

definition case_clear_reminder :: "State \<Rightarrow> number \<Rightarrow> string option \<times> State" where
  "case_clear_reminder state mid =
     (case find (\<lambda>r. Num (r_id r) = mid) (reminders state) of
        None \<Rightarrow> (Some (''There is no reminder with id '' @ numberToString mid @ ''.''), state)
      | Some reminder \<Rightarrow>
          (let state = clearTimeout (r_timeout reminder) state;
               state = state\<lparr>reminders :=
                         withoutFound (\<lambda>r. Num (r_id r) = mid) (reminders state)\<rparr>
           in (Some (''Ok, I will not remind you to '' @ r_text reminder @ ''.''), state)))"

text \<open>
  The \<^verbatim>\<open>confirm\<close> case returns in three places. Where it does not (a history that
  is not empty, and a last entry whose text, unit or quantity is falsy), the result is
  \<open>None\<close>: the case block ends without \<^verbatim>\<open>return\<close> or \<^verbatim>\<open>break\<close>, and control
  falls through into the next case.
\<close>

definition case_confirm :: "State \<Rightarrow> bool \<Rightarrow> (string option \<times> State) option" where
  "case_confirm state confirm =
     (if length (dialogHistory state) = 0 then Some (Some fallbackReply, state)
      else
        (let currentReminder = dialogHistory state ! (length (dialogHistory state) - 1);
             text = i_text currentReminder;
             quantity = i_quantity currentReminder;
             unit = i_unit currentReminder
         in case (text, unit, quantity) of
              (Some t, Some u, Some q) \<Rightarrow>
                if t \<noteq> [] \<and> truthyNumber q
                then
                  (if confirm
                   then
                     (let seconds = convertDurationToSeconds q u;
                          state = state\<lparr>userModel := (userModel state)(t \<mapsto> seconds)\<rparr>
                      in Some (Some ''Consider it done.'', state))
                   else Some (Some ''Alright, I won't.'', state))
                else None
            | _ \<Rightarrow> None))"

definition case_unknown :: "State \<Rightarrow> string option \<times> State" where
  "case_unknown state = (Some fallbackReply, state)"

text \<open>
  The executor: the reply it returns (\<open>None\<close> if it ended without \<^verbatim>\<open>return\<close>) and
  the state it leaves. \<open>now\<close> is the clock reading of the turn.
\<close>

fun executeMessage :: "int \<Rightarrow> State \<Rightarrow> Message \<Rightarrow> string option \<times> State" where
  "executeMessage now state HelpMessage = (Some helpMessage, state)"
| "executeMessage now state (AddReminderMessage text quantity unit) =
     case_add_reminder now state text quantity unit"
| "executeMessage now state (AddReminderNoTimeMessage text) =
     case_add_reminder_no_time now state text"
| "executeMessage now state (Time quantity unit) = case_time now state quantity unit"
| "executeMessage now state ListRemindersMessage = case_list_reminders now state"
| "executeMessage now state ClearAllRemindersMessage = case_clear_all_reminders state"
| "executeMessage now state (ClearReminderMessage mid) = case_clear_reminder state mid"
| "executeMessage now state (Confirm confirm) =
     (case case_confirm state confirm of
        Some result \<Rightarrow> result
      | None \<Rightarrow> case_unknown state)"
| "executeMessage now state UnknownMessage = case_unknown state"

text \<open>
  A timeout that elapses: the host takes it from the pending ones and runs its closure,
  which sends its frames and drops the reminders with its id.
\<close>

definition dropReminder :: "int \<Rightarrow> State \<Rightarrow> State" where
  "dropReminder rid state =
     state\<lparr>reminders := filter (\<lambda>r. r_id r \<noteq> rid) (reminders state)\<rparr>"

fun runCallback :: "Callback \<Rightarrow> State \<Rightarrow> State" where
  "runCallback (AddReminderCallback text seconds rid) state =
     (let state = send (''It is time for your '' @ text @ ''!'') state;
          state =
            (if userModel state text = None
             then send (''Should I remember that '' @ text @ '' takes '' @
                        numberToString seconds @ '' seconds?'') state
             else state)
      in dropReminder rid state)"
| "runCallback (NoTimeCallback text rid) state =
     (let state = send (''It is time for your '' @ text @ ''!'') state
      in dropReminder rid state)"
| "runCallback (TimeCallback text seconds rid) state =
     (let state = send (''It is time for your '' @ stringToString text @ ''!'') state;
          state =
            (if truthyString text
             then
               (if userModel state (stringToString text) = None
                then send (''Should I remember that '' @ stringToString text @ '' takes '' @
                           numberToString seconds @ '' seconds?'') state
                else state)
             else state)
      in dropReminder rid state)"

definition fireTimeout :: "nat \<Rightarrow> State \<Rightarrow> State" where
  "fireTimeout h state =
     (case find (\<lambda>t. t_handle t = h) (timeouts state) of
        None \<Rightarrow> state
      | Some t \<Rightarrow> runCallback (t_callback t) (clearTimeout h state))"

section \<open>Websocket wrapper\<close>

text \<open>
  The state of a session that has just been opened, its greeting sent. The handler of
  an inbound frame takes the parser as a parameter, a function that returns a command
  for every frame: the results below hold for any such parser, and do not rest on the
  model of \<^verbatim>\<open>createParser\<close>.
\<close>

definition openSession :: State where
  "openSession =
     \<lparr>ws = [''Greetings, friend! Type <tt>help</tt> to get started.''],
      reminders = [], nextId = 1, dialogHistory = [], userModel = Map.empty,
      timeouts = [], timeoutCount = 0\<rparr>"

definition onMessage :: "(string \<Rightarrow> Message) \<Rightarrow> int \<Rightarrow> string \<Rightarrow> State \<Rightarrow> State" where
  "onMessage parse now rawMessage state =
     (let message = parse rawMessage;
          (reply, state) = executeMessage now state message
      in case reply of Some r \<Rightarrow> send r state | None \<Rightarrow> state)"

definition onClose :: "State \<Rightarrow> State" where
  "onClose state = clearAllReminders state"

section \<open>Commands the intents build\<close>

text \<open>
  The tokens the capture groups of the patterns admit. All patterns carry the flag
  \<^verbatim>\<open>i\<close>: \<^verbatim>\<open>(?<quantity>\d+|a|an)\<close>, \<^verbatim>\<open>(?<unit>(?:second|minute|hour)s?)\<close> and
  \<^verbatim>\<open>(?<id>\d+)\<close>.
\<close>

definition quantityToken :: "string \<Rightarrow> bool" where
  "quantityToken q =
     ((q \<noteq> [] \<and> list_all isDigit q) \<or> toLowerCase q = ''a'' \<or> toLowerCase q = ''an'')"

definition unitToken :: "string \<Rightarrow> bool" where
  "unitToken u =
     (toLowerCase u \<in>
        {''second'', ''seconds'', ''minute'', ''minutes'', ''hour'', ''hours''})"

definition idToken :: "string \<Rightarrow> bool" where
  "idToken i = (i \<noteq> [] \<and> list_all isDigit i)"

text \<open>
  The commands the \<^verbatim>\<open>func\<close> of an intent returns on such tokens, one rule for each
  intent and one for the fallback. The captured text is any string.
\<close>

inductive built :: "Message \<Rightarrow> bool" where
  built_help: "built HelpMessage"
| built_add_reminder:
    "quantityToken quantity \<Longrightarrow> unitToken unit \<Longrightarrow>
     built (AddReminderMessage text (parseQuantity quantity) (parseUnit unit))"
| built_add_reminder_no_time: "built (AddReminderNoTimeMessage text)"
| built_list_reminders: "built ListRemindersMessage"
| built_clear_all_reminders: "built ClearAllRemindersMessage"
| built_clear_reminder: "idToken i \<Longrightarrow> built (ClearReminderMessage (Number i))"
| built_time:
    "quantityToken quantity \<Longrightarrow> unitToken unit \<Longrightarrow>
     built (Time (parseQuantity quantity) (parseUnit unit))"
| built_confirm: "built (Confirm confirm)"
| built_unknown: "built UnknownMessage"

section \<open>States of a session\<close>

text \<open>
  The states a session passes through: it is opened, then frames arrive and timeouts
  elapse in any order, and it may be closed. The parser is any function, as long as the
  command it returns for the frame is a built one.
\<close>

inductive reachable :: "State \<Rightarrow> bool" where
  reach_open: "reachable openSession"
| reach_message:
    "reachable state \<Longrightarrow> built (parse rawMessage) \<Longrightarrow>
     reachable (onMessage parse now rawMessage state)"
| reach_timeout: "reachable state \<Longrightarrow> reachable (fireTimeout h state)"
| reach_close: "reachable state \<Longrightarrow> reachable (onClose state)"

text \<open>A quantity a built command can carry, and a duration the memory can hold.\<close>

definition okQuantity :: "number \<Rightarrow> bool" where
  "okQuantity q = (case q of NaN \<Rightarrow> True | Num n \<Rightarrow> 0 \<le> n)"

definition positive :: "number \<Rightarrow> bool" where
  "positive v = (case v of NaN \<Rightarrow> False | Num n \<Rightarrow> 0 < n)"

definition memoryInvariant :: "State \<Rightarrow> bool" where
  "memoryInvariant s =
     ((\<forall>t v. userModel s t = Some v \<longrightarrow> positive v) \<and>
      (\<forall>e \<in> set (dialogHistory s). \<forall>q. i_quantity e = Some q \<longrightarrow> okQuantity q))"

text \<open>The ids in use lie below the counter.\<close>

definition idsBelowCounter :: "State \<Rightarrow> bool" where
  "idsBelowCounter s =
     ((\<forall>r \<in> set (reminders s). r_id r < nextId s) \<and>
      (\<forall>e \<in> set (dialogHistory s). i_id e < nextId s))"

section \<open>The words of a pattern\<close>

text \<open>
  What a pattern can consume, whatever the input around it; the groups that occur in a
  pattern, each with its own pattern; and the groups that every match of a pattern
  captures.
\<close>

inductive_set star :: "string set \<Rightarrow> string set" for A :: "string set" where
  star_empty: "[] \<in> star A"
| star_step: "u \<in> A \<Longrightarrow> v \<in> star A \<Longrightarrow> u @ v \<in> star A"

fun lang :: "regexp \<Rightarrow> string set" where
  "lang Empty = {[]}"
| "lang (Chr a) = {[c] | c. lowerChar c = lowerChar a}"
| "lang AnyChar = {[c] | c. \<not> isLineTerminator c}"
| "lang Digit = {[c] | c. isDigit c}"
| "lang (Seq r1 r2) = {u @ v | u v. u \<in> lang r1 \<and> v \<in> lang r2}"
| "lang (Alt r1 r2) = lang r1 \<union> lang r2"
| "lang (Star r) = star (lang r)"
| "lang (Opt r) = insert [] (lang r)"
| "lang (Group n r) = lang r"

fun captures :: "regexp \<Rightarrow> (string \<times> regexp) set" where
  "captures (Seq r1 r2) = captures r1 \<union> captures r2"
| "captures (Alt r1 r2) = captures r1 \<union> captures r2"
| "captures (Star r) = captures r"
| "captures (Opt r) = captures r"
| "captures (Group n r) = insert (n, r) (captures r)"
| "captures _ = {}"

fun always :: "regexp \<Rightarrow> string set" where
  "always (Seq r1 r2) = always r1 \<union> always r2"
| "always (Alt r1 r2) = always r1 \<inter> always r2"
| "always (Group n r) = insert n (always r)"
| "always _ = {}"

section \<open>Evaluation\<close>

lemmas normalizer_defs =
  convertDurationToSeconds_def parseQuantity_def parseUnit_def startsWith_def
  toLowerCase_def lowerChar_def Number_def isDigit_def digitValue_def

lemmas executor_defs =
  case_add_reminder_def case_add_reminder_no_time_def case_time_def case_confirm_def
  case_unknown_def setTimeout_def dateAfter_def scheduledReply_def numberToString_def
  natToString.simps digitChar_def rewritePronouns_def isWordChar_def stringToString_def
  truthyString_def fallbackReply_def openSession_def Let_def

lemmas parser_defs =
  parseMessage_def createParser_def trim_def isWhiteSpace_def exec_def matches.simps
  lit_def seqs_def helpRegexps_def addReminderRegexps_def addReminderNoTimeRegexps_def
  listRemindersRegexps_def clearAllRemindersRegexps_def clearReminderRegexps_def
  timeRegexps_def confirmRegexps_def declineRegexps_def quantityGroup_def unitGroup_def
  textGroup_def idGroup_def remindMeAbout_def digits_def quantityPattern_def
  unitPattern_def theOrMy_def addReminderFunc_def addReminderNoTimeFunc_def
  clearReminderFunc_def timeFunc_def lowerChar_def isDigit_def isLineTerminator_def

section \<open>What a match consumes and captures\<close>

lemma in_matches_Empty: "(s', g') \<in> set (matches Empty s g) \<longleftrightarrow> s' = s \<and> g' = g"
  by (auto simp: matches.simps)

lemma in_matches_Chr:
  "(s', g') \<in> set (matches (Chr a) s g) \<longleftrightarrow>
   (\<exists>c. s = c # s' \<and> lowerChar c = lowerChar a \<and> g' = g)"
  by (cases s) (auto simp: matches.simps)

lemma in_matches_AnyChar:
  "(s', g') \<in> set (matches AnyChar s g) \<longleftrightarrow>
   (\<exists>c. s = c # s' \<and> \<not> isLineTerminator c \<and> g' = g)"
  by (cases s) (auto simp: matches.simps)

lemma in_matches_Digit:
  "(s', g') \<in> set (matches Digit s g) \<longleftrightarrow> (\<exists>c. s = c # s' \<and> isDigit c \<and> g' = g)"
  by (cases s) (auto simp: matches.simps)

lemma in_matches_Seq:
  "(s', g') \<in> set (matches (Seq r1 r2) s g) \<longleftrightarrow>
   (\<exists>s1 g1. (s1, g1) \<in> set (matches r1 s g) \<and> length s1 \<le> length s \<and>
      (s', g') \<in> set (matches r2 s1 g1))"
  by (subst matches.simps) (auto split: if_splits)

lemma in_matches_Alt:
  "(s', g') \<in> set (matches (Alt r1 r2) s g) \<longleftrightarrow>
   (s', g') \<in> set (matches r1 s g) \<or> (s', g') \<in> set (matches r2 s g)"
  by (subst matches.simps) auto

lemma in_matches_Star:
  "(s', g') \<in> set (matches (Star r) s g) \<longleftrightarrow>
   (s' = s \<and> g' = g) \<or>
   (\<exists>s1 g1. (s1, g1) \<in> set (matches r s g) \<and> length s1 < length s \<and>
      (s', g') \<in> set (matches (Star r) s1 g1))"
  by (subst matches.simps) (auto split: if_splits)

lemma in_matches_Opt:
  "(s', g') \<in> set (matches (Opt r) s g) \<longleftrightarrow>
   (s' = s \<and> g' = g) \<or> ((s', g') \<in> set (matches r s g) \<and> length s' < length s)"
  by (subst matches.simps) auto

lemma in_matches_Group:
  "(s', g') \<in> set (matches (Group n r) s g) \<longleftrightarrow>
   (\<exists>g0. (s', g0) \<in> set (matches r s g) \<and>
      g' = g0(n \<mapsto> take (length s - length s') s))"
  by (subst matches.simps) auto

lemma matches_lang:
  "(s', g') \<in> set (matches r s g) \<Longrightarrow> \<exists>w \<in> lang r. s = w @ s'"
proof (induction r s g arbitrary: s' g' rule: matches.induct)
  case (1 s g)
  then show ?case by (simp add: in_matches_Empty)
next
  case (2 a s g)
  then show ?case by (auto simp: in_matches_Chr)
next
  case (3 s g)
  then show ?case by (auto simp: in_matches_AnyChar)
next
  case (4 s g)
  then show ?case by (auto simp: in_matches_Digit)
next
  case (5 r1 r2 s g)
  from "5.prems" obtain s1 g1 where
    a: "(s1, g1) \<in> set (matches r1 s g)" and l: "length s1 \<le> length s"
    and b: "(s', g') \<in> set (matches r2 s1 g1)"
    unfolding in_matches_Seq by blast
  from "5.IH"(1) [OF a] obtain w1 where w1: "w1 \<in> lang r1" "s = w1 @ s1" by blast
  from "5.IH"(2) [OF a refl l b] obtain w2 where w2: "w2 \<in> lang r2" "s1 = w2 @ s'" by blast
  from w1 w2 have "w1 @ w2 \<in> lang (Seq r1 r2)" "s = (w1 @ w2) @ s'" by auto
  then show ?case by blast
next
  case (6 r1 r2 s g)
  from "6.prems" consider
    (left) "(s', g') \<in> set (matches r1 s g)" | (right) "(s', g') \<in> set (matches r2 s g)"
    unfolding in_matches_Alt by blast
  then show ?case
  proof cases
    case left
    from "6.IH"(1) [OF left] show ?thesis by auto
  next
    case right
    from "6.IH"(2) [OF right] show ?thesis by auto
  qed
next
  case (7 r s g)
  from "7.prems" consider
    (stop) "s' = s" "g' = g"
  | (step) s1 g1 where "(s1, g1) \<in> set (matches r s g)" "length s1 < length s"
      "(s', g') \<in> set (matches (Star r) s1 g1)"
    by (subst (asm) in_matches_Star) blast
  then show ?case
  proof cases
    case stop
    have "[] \<in> lang (Star r)" by (simp add: star_empty)
    with stop show ?thesis by force
  next
    case step
    from "7.IH"(1) [OF step(1)] obtain w1 where w1: "w1 \<in> lang r" "s = w1 @ s1" by blast
    from "7.IH"(2) [OF step(1) refl step(2) step(3)] obtain w2
      where w2: "w2 \<in> lang (Star r)" "s1 = w2 @ s'" by blast
    from w1 w2 have "w1 @ w2 \<in> lang (Star r)" "s = (w1 @ w2) @ s'"
      by (auto intro: star_step)
    then show ?thesis by blast
  qed
next
  case (8 r s g)
  from "8.prems" consider (skip) "s' = s" | (take) "(s', g') \<in> set (matches r s g)"
    unfolding in_matches_Opt by blast
  then show ?case
  proof cases
    case skip
    then show ?thesis by simp
  next
    case take
    from "8.IH" [OF take] show ?thesis by auto
  qed
next
  case (9 n r s g)
  from "9.prems" obtain g0 where a: "(s', g0) \<in> set (matches r s g)"
    unfolding in_matches_Group by blast
  from "9.IH" [OF a] show ?case by simp
qed

lemma matches_captures:
  "(s', g') \<in> set (matches r s g) \<Longrightarrow>
   g' n = g n \<or> (\<exists>r0 w. (n, r0) \<in> captures r \<and> g' n = Some w \<and> w \<in> lang r0)"
proof (induction r s g arbitrary: s' g' rule: matches.induct)
  case (1 s g)
  then show ?case by (simp add: in_matches_Empty)
next
  case (2 a s g)
  then show ?case by (auto simp: in_matches_Chr)
next
  case (3 s g)
  then show ?case by (auto simp: in_matches_AnyChar)
next
  case (4 s g)
  then show ?case by (auto simp: in_matches_Digit)
next
  case (5 r1 r2 s g)
  from "5.prems" obtain s1 g1 where
    a: "(s1, g1) \<in> set (matches r1 s g)" and l: "length s1 \<le> length s"
    and b: "(s', g') \<in> set (matches r2 s1 g1)"
    unfolding in_matches_Seq by blast
  from "5.IH"(1) [OF a] "5.IH"(2) [OF a refl l b] show ?case by auto
next
  case (6 r1 r2 s g)
  from "6.prems" consider
    (left) "(s', g') \<in> set (matches r1 s g)" | (right) "(s', g') \<in> set (matches r2 s g)"
    unfolding in_matches_Alt by blast
  then show ?case
  proof cases
    case left
    from "6.IH"(1) [OF left] show ?thesis by auto
  next
    case right
    from "6.IH"(2) [OF right] show ?thesis by auto
  qed
next
  case (7 r s g)
  from "7.prems" consider
    (stop) "s' = s" "g' = g"
  | (step) s1 g1 where "(s1, g1) \<in> set (matches r s g)" "length s1 < length s"
      "(s', g') \<in> set (matches (Star r) s1 g1)"
    by (subst (asm) in_matches_Star) blast
  then show ?case
  proof cases
    case stop
    then show ?thesis by simp
  next
    case step
    from "7.IH"(1) [OF step(1)] "7.IH"(2) [OF step(1) refl step(2) step(3)]
    show ?thesis by auto
  qed
next
  case (8 r s g)
  from "8.prems" consider (skip) "g' = g" | (take) "(s', g') \<in> set (matches r s g)"
    unfolding in_matches_Opt by blast
  then show ?case
  proof cases
    case skip
    then show ?thesis by simp
  next
    case take
    from "8.IH" [OF take] show ?thesis by auto
  qed
next
  case (9 n' r s g)
  from "9.prems" obtain g0 where
    a: "(s', g0) \<in> set (matches r s g)"
    and g': "g' = g0(n' \<mapsto> take (length s - length s') s)"
    unfolding in_matches_Group by blast
  from matches_lang [OF a] obtain w where w: "w \<in> lang r" "s = w @ s'" by blast
  then have t: "take (length s - length s') s = w" by simp
  show ?case
  proof (cases "n = n'")
    case True
    with g' t w show ?thesis by auto
  next
    case False
    with g' "9.IH" [OF a] show ?thesis by auto
  qed
qed


lemma matches_always:
  "(s', g') \<in> set (matches r s g) \<Longrightarrow>
   (g n \<noteq> None \<longrightarrow> g' n \<noteq> None) \<and> (n \<in> always r \<longrightarrow> g' n \<noteq> None)"
proof (induction r s g arbitrary: s' g' rule: matches.induct)
  case (1 s g)
  then show ?case by (simp add: in_matches_Empty)
next
  case (2 a s g)
  then show ?case by (auto simp: in_matches_Chr)
next
  case (3 s g)
  then show ?case by (auto simp: in_matches_AnyChar)
next
  case (4 s g)
  then show ?case by (auto simp: in_matches_Digit)
next
  case (5 r1 r2 s g)
  from "5.prems" obtain s1 g1 where
    a: "(s1, g1) \<in> set (matches r1 s g)" and l: "length s1 \<le> length s"
    and b: "(s', g') \<in> set (matches r2 s1 g1)"
    unfolding in_matches_Seq by blast
  from "5.IH"(1) [OF a] "5.IH"(2) [OF a refl l b] show ?case by auto
next
  case (6 r1 r2 s g)
  from "6.prems" consider
    (left) "(s', g') \<in> set (matches r1 s g)" | (right) "(s', g') \<in> set (matches r2 s g)"
    unfolding in_matches_Alt by blast
  then show ?case
  proof cases
    case left
    from "6.IH"(1) [OF left] show ?thesis by auto
  next
    case right
    from "6.IH"(2) [OF right] show ?thesis by auto
  qed
next
  case (7 r s g)
  from "7.prems" consider
    (stop) "s' = s" "g' = g"
  | (step) s1 g1 where "(s1, g1) \<in> set (matches r s g)" "length s1 < length s"
      "(s', g') \<in> set (matches (Star r) s1 g1)"
    by (subst (asm) in_matches_Star) blast
  then show ?case
  proof cases
    case stop
    then show ?thesis by simp
  next
    case step
    from "7.IH"(1) [OF step(1)] "7.IH"(2) [OF step(1) refl step(2) step(3)]
    show ?thesis by auto
  qed
next
  case (8 r s g)
  from "8.prems" consider (skip) "g' = g" | (take) "(s', g') \<in> set (matches r s g)"
    unfolding in_matches_Opt by blast
  then show ?case
  proof cases
    case skip
    then show ?thesis by simp
  next
    case take
    from "8.IH" [OF take] show ?thesis by auto
  qed
next
  case (9 n' r s g)
  from "9.prems" obtain g0 where
    a: "(s', g0) \<in> set (matches r s g)"
    and g': "g' = g0(n' \<mapsto> take (length s - length s') s)"
    unfolding in_matches_Group by blast
  with "9.IH" [OF a] show ?case by auto
qed

section \<open>The tokens of the capture groups\<close>

lemma lowerChar_cases:
  "(c \<notin> set ''ABCDEFGHIJKLMNOPQRSTUVWXYZ'' \<and> lowerChar c = c) \<or>
   lowerChar c \<in> set ''abcdefghijklmnopqrstuvwxyz''"
proof (cases "map_of (zip ''ABCDEFGHIJKLMNOPQRSTUVWXYZ'' ''abcdefghijklmnopqrstuvwxyz'') c")
  case None
  then have "c \<notin> set ''ABCDEFGHIJKLMNOPQRSTUVWXYZ''"
    by (subst (asm) map_of_zip_is_None) simp_all
  with None show ?thesis by (simp only: lowerChar_def option.case simp_thms)
next
  case (Some l)
  then have "(c, l) \<in> set (zip ''ABCDEFGHIJKLMNOPQRSTUVWXYZ'' ''abcdefghijklmnopqrstuvwxyz'')"
    by (rule map_of_SomeD)
  then have "l \<in> set ''abcdefghijklmnopqrstuvwxyz''" by (rule set_zip_rightD)
  with Some show ?thesis by (simp only: lowerChar_def option.case simp_thms)
qed

lemma lowerChar_space: "lowerChar c = CHR '' '' \<Longrightarrow> c = CHR '' ''"
  using lowerChar_cases [of c] by auto

lemma lit_Nil: "lit [] = Empty"
  and lit_Cons: "lit (c # s) = Seq (Chr c) (lit s)"
  by (simp_all add: lit_def)

lemma lang_lit: "lang (lit s) = {w. map lowerChar w = map lowerChar s}"
proof (induction s)
  case Nil
  then show ?case by (auto simp: lit_Nil)
next
  case (Cons c s)
  show ?case
  proof (intro set_eqI iffI)
    fix w assume "w \<in> lang (lit (c # s))"
    then obtain x v where "w = x # v" "lowerChar x = lowerChar c" "v \<in> lang (lit s)"
      by (auto simp: lit_Cons)
    with Cons show "w \<in> {w. map lowerChar w = map lowerChar (c # s)}" by simp
  next
    fix w assume "w \<in> {w. map lowerChar w = map lowerChar (c # s)}"
    then obtain x v where w: "w = x # v" "lowerChar x = lowerChar c"
      "map lowerChar v = map lowerChar s"
      by (cases w) auto
    with Cons have "[x] \<in> lang (Chr c)" "v \<in> lang (lit s)" by auto
    then have "[x] @ v \<in> lang (Seq (Chr c) (lit s))" by (simp only: lang.simps) blast
    with w show "w \<in> lang (lit (c # s))" by (simp add: lit_Cons)
  qed
qed

lemma captures_lit [simp]: "captures (lit s) = {}"
  by (induction s) (simp_all add: lit_Nil lit_Cons)

lemma always_lit [simp]: "always (lit s) = {}"
  by (induction s) (simp_all add: lit_Nil lit_Cons)

lemma star_digits: "w \<in> star {[c] | c. isDigit c} \<Longrightarrow> list_all isDigit w"
  by (induction rule: star.induct) auto

lemma lang_digits: "w \<in> lang digits \<Longrightarrow> w \<noteq> [] \<and> list_all isDigit w"
  by (auto simp: digits_def dest: star_digits)

lemma lang_quantity:
  assumes "w \<in> lang quantityPattern"
  shows "quantityToken w"
proof -
  from assms consider "w \<in> lang digits" | "w \<in> lang (lit ''a'')"
    | "w \<in> lang (lit ''an'')"
    by (simp only: quantityPattern_def alts.simps lang.simps Un_iff) blast
  then show ?thesis
  proof cases
    case 1
    then show ?thesis using lang_digits [OF 1] by (simp add: quantityToken_def)
  next
    case 2
    then show ?thesis by (simp add: lang_lit lowerChar_def quantityToken_def toLowerCase_def)
  next
    case 3
    then show ?thesis by (simp add: lang_lit lowerChar_def quantityToken_def toLowerCase_def)
  qed
qed

lemma lang_unit:
  assumes "w \<in> lang unitPattern"
  shows "unitToken w"
proof -
  from assms obtain u v where w: "w = u @ v"
    and u: "u \<in> lang (alts [lit ''second'', lit ''minute'', lit ''hour''])"
    and v: "v \<in> lang (Opt (Chr (CHR ''s'')))"
    by (simp only: unitPattern_def lang.simps) blast
  from u have "u \<in> lang (lit ''second'') \<or> u \<in> lang (lit ''minute'') \<or>
      u \<in> lang (lit ''hour'')"
    by (simp only: alts.simps lang.simps Un_iff)
  then have u': "map lowerChar u \<in> {''second'', ''minute'', ''hour''}"
    by (simp add: lang_lit lowerChar_def)
  from v have v': "map lowerChar v \<in> {[], ''s''}"
    by (auto simp: lowerChar_def)
  from u' v' show ?thesis
    unfolding unitToken_def toLowerCase_def w map_append by auto
qed

lemma exec_Some: "exec r s = Some g \<Longrightarrow> ([], g) \<in> set (matches r s Map.empty)"
  by (auto simp: exec_def find_Some_iff in_set_conv_nth)

lemma firstGroups_Some: "firstGroups rs s = Some g \<Longrightarrow> \<exists>r \<in> set rs. exec r s = Some g"
  by (induction rs) (auto split: option.splits)

lemma group_token:
  assumes "([], g) \<in> set (matches r s Map.empty)" and "n \<in> always r"
    and "\<And>r0 w. (n, r0) \<in> captures r \<Longrightarrow> w \<in> lang r0 \<Longrightarrow> P w"
  shows "\<exists>w. g n = Some w \<and> P w"
proof -
  from matches_always [OF assms(1), of n] assms(2) have "g n \<noteq> None" by simp
  with matches_captures [OF assms(1), of n] assms(3) show ?thesis by auto
qed

lemma captures_patterns [simp]:
  "captures digits = {}" "captures quantityPattern = {}" "captures unitPattern = {}"
  "captures remindMeAbout = {}" "captures theOrMy = {}"
  by (simp_all add: digits_def quantityPattern_def unitPattern_def remindMeAbout_def
        theOrMy_def seqs_def)

lemma captures_groups [simp]:
  "captures quantityGroup = {(''quantity'', quantityPattern)}"
  "captures unitGroup = {(''unit'', unitPattern)}"
  "captures textGroup = {(''text'', Star AnyChar)}"
  "captures idGroup = {(''id'', digits)}"
  by (simp_all add: quantityGroup_def unitGroup_def textGroup_def idGroup_def)

lemma always_groups [simp]:
  "''quantity'' \<in> always quantityGroup" "''unit'' \<in> always unitGroup"
  "''text'' \<in> always textGroup" "''id'' \<in> always idGroup"
  by (simp_all add: quantityGroup_def unitGroup_def textGroup_def idGroup_def)

lemma duration_groups:
  assumes "([], g) \<in> set (matches r s Map.empty)"
    and "''quantity'' \<in> always r" and "''unit'' \<in> always r"
    and "\<And>r0. (''quantity'', r0) \<in> captures r \<Longrightarrow> r0 = quantityPattern"
    and "\<And>r0. (''unit'', r0) \<in> captures r \<Longrightarrow> r0 = unitPattern"
  shows "\<exists>q u. g ''quantity'' = Some q \<and> quantityToken q \<and> g ''unit'' = Some u \<and> unitToken u"
proof -
  have "\<exists>q. g ''quantity'' = Some q \<and> quantityToken q"
    using assms(1,2)
  proof (rule group_token)
    fix r0 w assume "(''quantity'', r0) \<in> captures r" "w \<in> lang r0"
    with assms(4) show "quantityToken w" by (auto intro: lang_quantity)
  qed
  moreover have "\<exists>u. g ''unit'' = Some u \<and> unitToken u"
    using assms(1,3)
  proof (rule group_token)
    fix r0 w assume "(''unit'', r0) \<in> captures r" "w \<in> lang r0"
    with assms(5) show "unitToken w" by (auto intro: lang_unit)
  qed
  ultimately show ?thesis by blast
qed

lemma add_reminder_builds:
  assumes "r \<in> set addReminderRegexps" and "exec r s = Some g"
  shows "\<exists>m. addReminderFunc g = Some m \<and> built m"
proof -
  from assms(2) have m: "([], g) \<in> set (matches r s Map.empty)" by (rule exec_Some)
  from assms(1) have al: "''quantity'' \<in> always r" "''unit'' \<in> always r" "''text'' \<in> always r"
    by (auto simp: addReminderRegexps_def seqs_def)
  from assms(1) have c: "\<And>r0. (''quantity'', r0) \<in> captures r \<Longrightarrow> r0 = quantityPattern"
    "\<And>r0. (''unit'', r0) \<in> captures r \<Longrightarrow> r0 = unitPattern"
    by (auto simp: addReminderRegexps_def seqs_def)
  from duration_groups [OF m al(1,2) c] obtain q u where
    qu: "g ''quantity'' = Some q" "quantityToken q" "g ''unit'' = Some u" "unitToken u"
    by blast
  from matches_always [OF m, of "''text''"] al(3) obtain t where t: "g ''text'' = Some t"
    by auto
  from qu t have "addReminderFunc g = Some (AddReminderMessage t (parseQuantity q) (parseUnit u))"
    by (simp add: addReminderFunc_def)
  with qu show ?thesis by (auto intro: built_add_reminder)
qed

lemma time_builds:
  assumes "r \<in> set timeRegexps" and "exec r s = Some g"
  shows "\<exists>m. timeFunc g = Some m \<and> built m"
proof -
  from assms(2) have m: "([], g) \<in> set (matches r s Map.empty)" by (rule exec_Some)
  from assms(1) have al: "''quantity'' \<in> always r" "''unit'' \<in> always r"
    by (auto simp: timeRegexps_def seqs_def)
  from assms(1) have c: "\<And>r0. (''quantity'', r0) \<in> captures r \<Longrightarrow> r0 = quantityPattern"
    "\<And>r0. (''unit'', r0) \<in> captures r \<Longrightarrow> r0 = unitPattern"
    by (auto simp: timeRegexps_def seqs_def)
  from duration_groups [OF m al c] obtain q u where
    qu: "g ''quantity'' = Some q" "quantityToken q" "g ''unit'' = Some u" "unitToken u"
    by blast
  then have "timeFunc g = Some (Time (parseQuantity q) (parseUnit u))"
    by (simp add: timeFunc_def)
  with qu show ?thesis by (auto intro: built_time)
qed

lemma clear_reminder_builds:
  assumes "r \<in> set clearReminderRegexps" and "exec r s = Some g"
  shows "\<exists>m. clearReminderFunc g = Some m \<and> built m"
proof -
  from assms(2) have m: "([], g) \<in> set (matches r s Map.empty)" by (rule exec_Some)
  from assms(1) have al: "''id'' \<in> always r"
    by (auto simp: clearReminderRegexps_def seqs_def)
  have "\<exists>i. g ''id'' = Some i \<and> idToken i"
    using m al
  proof (rule group_token)
    fix r0 w assume "(''id'', r0) \<in> captures r" "w \<in> lang r0"
    with assms(1) have "w \<in> lang digits"
      by (auto simp: clearReminderRegexps_def seqs_def)
    then show "idToken w" using lang_digits by (simp add: idToken_def)
  qed
  then obtain i where i: "g ''id'' = Some i" "idToken i" by blast
  then have "clearReminderFunc g = Some (ClearReminderMessage (Number i))"
    by (simp add: clearReminderFunc_def)
  with i show ?thesis by (auto intro: built_clear_reminder)
qed

section \<open>The parser returns built commands\<close>

lemma trim_last: "trim raw \<noteq> [] \<Longrightarrow> \<not> isWhiteSpace (last (trim raw))"
proof -
  assume a: "trim raw \<noteq> []"
  let ?u = "dropWhile isWhiteSpace (rev (dropWhile isWhiteSpace raw))"
  from a have u: "?u \<noteq> []" by (simp add: trim_def)
  then have "\<not> isWhiteSpace (hd ?u)" by (rule hd_dropWhile)
  moreover have "last (trim raw) = hd ?u" using u by (simp add: trim_def last_rev)
  ultimately show ?thesis by simp
qed

lemma lang_space: "w \<in> lang (lit '' '') \<Longrightarrow> w = '' ''"
proof -
  assume "w \<in> lang (lit '' '')"
  then have "map lowerChar w = [lowerChar (CHR '' '')]" by (simp add: lang_lit)
  moreover have "lowerChar (CHR '' '') = CHR '' ''" by (simp add: lowerChar_def)
  ultimately obtain c where "w = [c]" "lowerChar c = CHR '' ''" by (cases w) auto
  then show ?thesis by (simp add: lowerChar_space)
qed

lemma lang_remindMeAbout: "w \<in> lang remindMeAbout \<Longrightarrow> w \<noteq> [] \<and> last w = CHR '' ''"
proof -
  assume "w \<in> lang remindMeAbout"
  then obtain a b c d where "w = a @ b @ c @ d" "d \<in> lang (lit '' '')"
    unfolding remindMeAbout_def seqs_def by (simp only: foldr.simps o_apply id_apply lang.simps)
      (auto simp del: lang.simps)
  then show ?thesis by (auto dest: lang_space)
qed

lemma lang_theOrMy: "w \<in> lang theOrMy \<Longrightarrow> w \<noteq> [] \<and> last w = CHR '' ''"
proof -
  assume "w \<in> lang theOrMy"
  then obtain a d where "w = a @ d" "d \<in> lang (lit '' '')"
    unfolding theOrMy_def by (simp only: lang.simps) blast
  then show ?thesis by (auto dest: lang_space)
qed

lemma star_theOrMy: "w \<in> star (lang theOrMy) \<Longrightarrow> w = [] \<or> last w = CHR '' ''"
proof (induction rule: star.induct)
  case star_empty
  then show ?case by simp
next
  case (star_step u v)
  from lang_theOrMy [OF star_step.hyps(1)] star_step.IH show ?case
    by (cases "v = []") simp_all
qed

lemma add_reminder_no_time_builds:
  assumes "r \<in> set addReminderNoTimeRegexps" and "exec r (trim raw) = Some g"
  shows "\<exists>m. addReminderNoTimeFunc g = Some m \<and> built m"
proof -
  let ?s = "trim raw"
  from assms(2) have m: "([], g) \<in> set (matches r ?s Map.empty)" by (rule exec_Some)
  from assms(1) have r: "r = Seq remindMeAbout (Seq (Star theOrMy) (Seq (Opt textGroup) Empty))"
    by (simp add: addReminderNoTimeRegexps_def seqs_def)
  from m obtain s1 g1 s2 g2 s3 where
    1: "(s1, g1) \<in> set (matches remindMeAbout ?s Map.empty)"
    and 2: "(s2, g2) \<in> set (matches (Star theOrMy) s1 g1)"
    and 3: "(s3, g) \<in> set (matches (Opt textGroup) s2 g2)"
    and 4: "s3 = []"
    unfolding r in_matches_Seq in_matches_Empty by blast
  from 3 consider (skip) "s3 = s2" | (take) "(s3, g) \<in> set (matches textGroup s2 g2)"
    unfolding in_matches_Opt by blast
  then have "g ''text'' \<noteq> None"
  proof cases
    case skip
    from matches_lang [OF 1] obtain w1 where w1: "w1 \<in> lang remindMeAbout" "?s = w1 @ s1"
      by blast
    from matches_lang [OF 2] obtain w2 where w2: "w2 \<in> star (lang theOrMy)" "s1 = w2 @ s2"
      by auto
    from skip 4 w1 w2 have s: "?s = w1 @ w2" by simp
    from lang_remindMeAbout [OF w1(1)] star_theOrMy [OF w2(1)]
    have "w1 @ w2 \<noteq> [] \<and> last (w1 @ w2) = CHR '' ''" by (cases "w2 = []") simp_all
    with s have "?s \<noteq> []" "isWhiteSpace (last ?s)" by (simp_all add: isWhiteSpace_def)
    with trim_last show ?thesis by blast
  next
    case take
    from matches_always [OF take, of "''text''"] show ?thesis by simp
  qed
  then obtain t where "g ''text'' = Some t" by auto
  then have "addReminderNoTimeFunc g = Some (AddReminderNoTimeMessage t)"
    by (simp add: addReminderNoTimeFunc_def)
  then show ?thesis by (auto intro: built_add_reminder_no_time)
qed

lemma firstGroups_builds:
  assumes "firstGroups rs s = Some g"
    and "\<And>r. r \<in> set rs \<Longrightarrow> exec r s = Some g \<Longrightarrow> \<exists>m. func g = Some m \<and> built m"
  shows "\<exists>m. func g = Some m \<and> built m"
  using firstGroups_Some [OF assms(1)] assms(2) by blast

text \<open>
  Whatever the frame, the model of the parser returns a command, and one that the
  intents build: a parser of the kind the states of a session are defined for.
\<close>

lemma parseMessage_builds: "\<exists>m. parseMessage raw = Some m \<and> built m"
proof -
  let ?s = "trim raw"
  have a: "\<exists>m. addReminderFunc g = Some m \<and> built m"
    if "firstGroups addReminderRegexps ?s = Some g" for g
    using that add_reminder_builds by (rule firstGroups_builds)
  have b: "\<exists>m. addReminderNoTimeFunc g = Some m \<and> built m"
    if "firstGroups addReminderNoTimeRegexps ?s = Some g" for g
    using that add_reminder_no_time_builds by (rule firstGroups_builds)
  have c: "\<exists>m. clearReminderFunc g = Some m \<and> built m"
    if "firstGroups clearReminderRegexps ?s = Some g" for g
    using that clear_reminder_builds by (rule firstGroups_builds)
  have d: "\<exists>m. timeFunc g = Some m \<and> built m"
    if "firstGroups timeRegexps ?s = Some g" for g
    using that time_builds by (rule firstGroups_builds)
  show ?thesis
    unfolding parseMessage_def createParser_def
    using a b c d
    by (auto simp: built.intros split: option.splits)
qed

lemma reachable_parsed:
  assumes "reachable state" and "parseMessage rawMessage = Some message"
  shows "reachable (onMessage (\<lambda>raw. message) now rawMessage state)"
proof -
  from parseMessage_builds [of rawMessage] assms(2) have "built message" by simp
  with assms(1) show ?thesis
    by (rule reach_message [where parse = "\<lambda>raw. message"])
qed

section \<open>Frames of the examples\<close>

lemma parse_reminder_without_time:
  "parseMessage ''remind me about my homework'' = Some (AddReminderNoTimeMessage ''homework'')"
  by (simp add: parser_defs)

lemma parse_time:
  "parseMessage ''20 minutes'' = Some (Time (parseQuantity ''20'') (parseUnit ''minutes''))"
  by (simp add: parser_defs)

lemma parse_reminder_with_time:
  "parseMessage ''remind me about my homework in 5 minutes'' =
     Some (AddReminderMessage ''homework'' (parseQuantity ''5'') (parseUnit ''minutes''))"
  by (simp add: parser_defs)

lemma parse_banana: "parseMessage ''banana'' = Some UnknownMessage"
  by (simp add: parser_defs)

text \<open>A quantity in capitals matches its group, and is no number.\<close>

lemma parse_capital_an: "parseMessage ''An hour'' = Some (Time NaN TimeUnits_hours)"
  by (simp add: parser_defs normalizer_defs)

section \<open>The duration normalizer\<close>

text \<open>
  Claim C1, on the code. The round trip of the three token pairs: \<^verbatim>\<open>a\<close> with
  \<^verbatim>\<open>hour\<close> gives 3600 and \<^verbatim>\<open>10\<close> with \<^verbatim>\<open>seconds\<close> gives 10, but \<^verbatim>\<open>5\<close>
  with \<^verbatim>\<open>minutes\<close> gives 1080000, not 300: the case of minutes multiplies by 60 and
  runs on into the case of hours, which multiplies by 3600.
\<close>

theorem round_trip_minutes_fall_through:
  "convertDurationToSeconds (parseQuantity ''5'') (parseUnit ''minutes'') = Num 1080000 \<and>
   convertDurationToSeconds (parseQuantity ''a'') (parseUnit ''hour'') = Num 3600 \<and>
   convertDurationToSeconds (parseQuantity ''10'') (parseUnit ''seconds'') = Num 10"
  by (simp add: normalizer_defs)

section \<open>What the executor leaves alone\<close>

lemma setTimeout_fields [simp]:
  "userModel (snd (setTimeout cb ms s)) = userModel s"
  "dialogHistory (snd (setTimeout cb ms s)) = dialogHistory s"
  "reminders (snd (setTimeout cb ms s)) = reminders s"
  "ws (snd (setTimeout cb ms s)) = ws s"
  "nextId (snd (setTimeout cb ms s)) = nextId s"
  by (simp_all add: setTimeout_def)

lemma clearTimeout_fields [simp]:
  "userModel (clearTimeout h s) = userModel s"
  "dialogHistory (clearTimeout h s) = dialogHistory s"
  "reminders (clearTimeout h s) = reminders s"
  "ws (clearTimeout h s) = ws s"
  "nextId (clearTimeout h s) = nextId s"
  by (simp_all add: clearTimeout_def)

lemma fold_clearTimeout_fields [simp]:
  "userModel (fold (\<lambda>r. clearTimeout (r_timeout r)) rs s) = userModel s"
  "dialogHistory (fold (\<lambda>r. clearTimeout (r_timeout r)) rs s) = dialogHistory s"
  "ws (fold (\<lambda>r. clearTimeout (r_timeout r)) rs s) = ws s"
  "nextId (fold (\<lambda>r. clearTimeout (r_timeout r)) rs s) = nextId s"
  by (induction rs arbitrary: s) simp_all

section \<open>Every command is answered\<close>

lemma reply_add_reminder: "\<exists>r. fst (case_add_reminder now s t q u) = Some r"
  by (simp add: case_add_reminder_def Let_def split_def)

lemma reply_add_reminder_no_time: "\<exists>r. fst (case_add_reminder_no_time now s t) = Some r"
  by (simp add: case_add_reminder_no_time_def Let_def split_def split: option.splits)

lemma reply_time: "\<exists>r. fst (case_time now s q u) = Some r"
  by (simp add: case_time_def Let_def split_def)

lemma reply_list_reminders: "\<exists>r. fst (case_list_reminders now s) = Some r"
  by (simp add: case_list_reminders_def)

lemma reply_clear_reminder: "\<exists>r. fst (case_clear_reminder s mid) = Some r"
  by (simp add: case_clear_reminder_def Let_def split: option.splits)

lemma reply_confirm: "case_confirm s c = Some res \<Longrightarrow> \<exists>r. fst res = Some r"
  by (auto simp: case_confirm_def Let_def split: if_splits option.splits)

lemma executeMessage_replies: "\<exists>r. fst (executeMessage now s m) = Some r"
proof (cases m)
  case (Confirm c)
  then show ?thesis
    by (cases "case_confirm s c") (auto simp: case_unknown_def dest: reply_confirm)
qed (simp_all add: reply_add_reminder reply_add_reminder_no_time reply_time
       reply_list_reminders reply_clear_reminder case_clear_all_reminders_def
       case_unknown_def)

lemma ws_confirm: "case_confirm s c = Some res \<Longrightarrow> ws (snd res) = ws s"
  by (auto simp: case_confirm_def Let_def split: if_splits option.splits)

lemma ws_executeMessage: "ws (snd (executeMessage now s m)) = ws s"
proof (cases m)
  case (Confirm c)
  then show ?thesis
    by (cases "case_confirm s c") (auto simp: case_unknown_def dest: ws_confirm)
qed (simp_all add: case_add_reminder_def case_add_reminder_no_time_def case_time_def
       case_list_reminders_def case_clear_all_reminders_def clearAllReminders_def
       case_clear_reminder_def case_unknown_def Let_def split_def split: option.splits)

text \<open>
  Claim C5. Whatever the command and the state, the executor returns a reply string; and
  the handler of an inbound frame, whatever the parser, sends that one reply and no other
  frame. A confirmation on an incomplete last entry is answered too, by the fallback of
  the case below it.
\<close>

theorem executor_total:
  "(\<exists>reply. fst (executeMessage now state message) = Some reply) \<and>
   (\<exists>reply. fst (executeMessage now state (parse rawMessage)) = Some reply \<and>
      ws (onMessage parse now rawMessage state) = ws state @ [reply])"
proof
  show "\<exists>reply. fst (executeMessage now state message) = Some reply"
    by (rule executeMessage_replies)
  obtain r where r: "fst (executeMessage now state (parse rawMessage)) = Some r"
    using executeMessage_replies by blast
  then have "ws (onMessage parse now rawMessage state) = ws state @ [r]"
    by (simp add: onMessage_def Let_def split_def send_def ws_executeMessage)
  with r show "\<exists>reply. fst (executeMessage now state (parse rawMessage)) = Some reply \<and>
      ws (onMessage parse now rawMessage state) = ws state @ [reply]"
    by blast
qed

section \<open>Turns without a pending context\<close>

text \<open>
  Claim C7. With an empty dialog history, a time specification and a confirmation are
  both answered by the fallback reply, and the state returned is the state given: its
  reminders, id counter, history, memory and timeouts are as before.
\<close>

theorem dialog_underflow:
  assumes "dialogHistory state = []"
  shows "executeMessage now state (Time quantity unit) = (Some fallbackReply, state) \<and>
         executeMessage now state (Confirm confirm) = (Some fallbackReply, state) \<and>
         fallbackReply = ''I'm sorry, I don't understand what you mean.''"
  using assms by (simp add: case_time_def case_confirm_def fallbackReply_def)

theorem dialog_underflow_witness:
  "dialogHistory openSession = [] \<and>
   executeMessage 0 openSession (Time (Num 20) TimeUnits_minutes) =
     (Some ''I'm sorry, I don't understand what you mean.'', openSession) \<and>
   executeMessage 0 openSession (Confirm True) =
     (Some ''I'm sorry, I don't understand what you mean.'', openSession)"
proof -
  have h: "dialogHistory openSession = []" by (simp add: openSession_def)
  from dialog_underflow [OF h, of 0 "Num 20" TimeUnits_minutes True] h
  show ?thesis by simp
qed

text \<open>
  Claim C8. The unknown command, which is what the parser returns for a frame that no
  pattern matches (\<open>parse_banana\<close>), is answered by the fallback reply, and the state
  returned is the state given.
\<close>

theorem unknown_is_pure:
  "executeMessage now state UnknownMessage =
     (Some ''I'm sorry, I don't understand what you mean.'', state)"
  by (simp add: case_unknown_def fallbackReply_def)

text \<open>
  Claim C9. With a history that is not empty and a last entry that lacks its text, its
  quantity or its unit, or whose quantity is 0, a confirmation, accepted or not, is
  answered by the fallback reply, and the state returned is the state given: nothing is
  written to the memory.
\<close>

theorem confirm_incomplete_falls_through:
  assumes "dialogHistory state \<noteq> []"
    and "i_text (last (dialogHistory state)) = None \<or>
         i_quantity (last (dialogHistory state)) = None \<or>
         i_unit (last (dialogHistory state)) = None \<or>
         i_quantity (last (dialogHistory state)) = Some (Num 0)"
  shows "case_confirm state confirm = None \<and>
         executeMessage now state (Confirm confirm) =
           (Some ''I'm sorry, I don't understand what you mean.'', state)"
  using assms
  by (auto simp: case_confirm_def case_unknown_def fallbackReply_def Let_def last_conv_nth
           split: option.splits)

theorem confirm_incomplete_falls_through_witness:
  "dialogHistory
     (snd (executeMessage 0 openSession (AddReminderNoTimeMessage ''homework''))) \<noteq> [] \<and>
   i_quantity (last (dialogHistory
     (snd (executeMessage 0 openSession (AddReminderNoTimeMessage ''homework''))))) = None \<and>
   executeMessage 1
     (snd (executeMessage 0 openSession (AddReminderNoTimeMessage ''homework'')))
     (Confirm True) =
     (Some ''I'm sorry, I don't understand what you mean.'',
      snd (executeMessage 0 openSession (AddReminderNoTimeMessage ''homework'')))"
proof -
  let ?s = "snd (executeMessage 0 openSession (AddReminderNoTimeMessage ''homework''))"
  have h1: "dialogHistory ?s \<noteq> []" by (simp add: executor_defs)
  have h2: "i_quantity (last (dialogHistory ?s)) = None" by (simp add: executor_defs)
  from h2 have h3: "i_text (last (dialogHistory ?s)) = None \<or>
      i_quantity (last (dialogHistory ?s)) = None \<or>
      i_unit (last (dialogHistory ?s)) = None \<or>
      i_quantity (last (dialogHistory ?s)) = Some (Num 0)" by blast
  from confirm_incomplete_falls_through [OF h1 h3, of True 1] h1 h2 show ?thesis by blast
qed

section \<open>Slot filling across turns\<close>

text \<open>
  Claim C2, on the code. In a fresh session the command of
  \<^verbatim>\<open>remind me about my homework\<close> (the pattern takes \<^verbatim>\<open>my\<close> out of the text, see
  \<open>parse_reminder_without_time\<close>) is answered by the question, as claimed. The command
  of the following \<^verbatim>\<open>20 minutes\<close> (\<open>parse_time\<close>) is answered with 4320000 seconds,
  not 1200: the conversion multiplies the minutes by 60 and by 3600.
\<close>

theorem dialog_continuity_on_code:
  "executeMessage now openSession (AddReminderNoTimeMessage ''homework'') =
     (Some ''How long does your homework take?'',
      openSession\<lparr>nextId := 2,
        dialogHistory :=
          [\<lparr>i_id = 1, i_quantity = None, i_unit = None, i_text = Some ''homework''\<rparr>]\<rparr>) \<and>
   fst (executeMessage now'
          (snd (executeMessage now openSession (AddReminderNoTimeMessage ''homework'')))
          (Time (parseQuantity ''20'') (parseUnit ''minutes''))) =
     Some ''Ok, I will remind you about your homework in 4320000 seconds.''"
  by (simp add: executor_defs normalizer_defs)

text \<open>
  Claim C3, on the code. A time specification that follows a complete reminder takes the
  id of the last entry of the history, which the reminder already carries: after the
  commands of \<^verbatim>\<open>remind me about my homework in 5 minutes\<close>
  (\<open>parse_reminder_with_time\<close>) and \<^verbatim>\<open>20 minutes\<close> the list of reminders holds two
  entries with the id 1.
\<close>

theorem time_after_reminder_repeats_id:
  "map r_id (reminders (snd (executeMessage now'
      (snd (executeMessage now openSession
         (AddReminderMessage ''homework'' (parseQuantity ''5'') (parseUnit ''minutes''))))
      (Time (parseQuantity ''20'') (parseUnit ''minutes''))))) = [1, 1]"
  by (simp add: executor_defs normalizer_defs)

subsection \<open>The ids the counter hands out\<close>

lemma ids_add_reminder:
  "idsBelowCounter s \<Longrightarrow> idsBelowCounter (snd (case_add_reminder now s t q u))"
  by (auto simp: idsBelowCounter_def case_add_reminder_def Let_def split_def)

lemma ids_add_reminder_no_time:
  "idsBelowCounter s \<Longrightarrow> idsBelowCounter (snd (case_add_reminder_no_time now s t))"
  by (auto simp: idsBelowCounter_def case_add_reminder_no_time_def Let_def split_def
           split: option.splits)

lemma ids_time: "idsBelowCounter s \<Longrightarrow> idsBelowCounter (snd (case_time now s q u))"
proof (cases "dialogHistory s = []")
  case True
  then show "idsBelowCounter s \<Longrightarrow> ?thesis" by (simp add: case_time_def)
next
  case False
  assume a: "idsBelowCounter s"
  let ?k = "length (dialogHistory s) - 1"
  from False have "dialogHistory s ! ?k \<in> set (dialogHistory s)" by simp
  with a have l: "i_id (dialogHistory s ! ?k) < nextId s" by (simp add: idsBelowCounter_def)
  have u: "i_id e < nextId s"
    if "e \<in> set ((dialogHistory s)[?k := c])" "i_id c < nextId s" for e c
    using that a set_update_subset_insert [of "dialogHistory s" ?k c]
    by (auto simp: idsBelowCounter_def)
  from a l False show ?thesis
    by (auto simp: idsBelowCounter_def case_time_def Let_def split_def intro: u)
qed

lemma set_withoutFound: "set (withoutFound P xs) \<subseteq> set xs"
  by (induction xs) auto

lemma ids_clear_reminder:
  "idsBelowCounter s \<Longrightarrow> idsBelowCounter (snd (case_clear_reminder s mid))"
  using set_withoutFound
  by (fastforce simp: idsBelowCounter_def case_clear_reminder_def Let_def split: option.splits)

lemma ids_clearAllReminders: "idsBelowCounter s \<Longrightarrow> idsBelowCounter (clearAllReminders s)"
  by (simp add: idsBelowCounter_def clearAllReminders_def Let_def)

lemma ids_confirm: "idsBelowCounter s \<Longrightarrow> case_confirm s c = Some (r, s') \<Longrightarrow> idsBelowCounter s'"
  by (auto simp: idsBelowCounter_def case_confirm_def Let_def split: if_splits option.splits)

lemma ids_executeMessage: "idsBelowCounter s \<Longrightarrow> idsBelowCounter (snd (executeMessage now s m))"
proof (cases m)
  case (Confirm c)
  assume a: "idsBelowCounter s"
  show ?thesis
  proof (cases "case_confirm s c")
    case None
    with a Confirm show ?thesis by (simp add: case_unknown_def)
  next
    case (Some res)
    obtain r s' where "res = (r, s')" by (cases res)
    with Some ids_confirm [OF a] Confirm show ?thesis by simp
  qed
qed (simp_all add: ids_add_reminder ids_add_reminder_no_time ids_time ids_clear_reminder
       ids_clearAllReminders case_list_reminders_def case_clear_all_reminders_def
       case_unknown_def)

lemma ids_onMessage: "idsBelowCounter s \<Longrightarrow> idsBelowCounter (onMessage parse now raw s)"
  using ids_executeMessage [of s now "parse raw"]
  by (simp add: onMessage_def Let_def split_def send_def idsBelowCounter_def
           split: option.splits)

lemma ids_runCallback: "idsBelowCounter s \<Longrightarrow> idsBelowCounter (runCallback cb s)"
  by (cases cb) (simp_all add: idsBelowCounter_def Let_def send_def dropReminder_def)

lemma ids_fireTimeout: "idsBelowCounter s \<Longrightarrow> idsBelowCounter (fireTimeout h s)"
proof -
  assume a: "idsBelowCounter s"
  then have "idsBelowCounter (clearTimeout h s)" by (simp add: idsBelowCounter_def)
  then show ?thesis by (simp add: fireTimeout_def a ids_runCallback split: option.splits)
qed

lemma reachable_ids: "reachable s \<Longrightarrow> idsBelowCounter s"
proof (induction rule: reachable.induct)
  case reach_open
  show ?case by (simp add: idsBelowCounter_def openSession_def)
qed (simp_all add: ids_onMessage ids_fireTimeout ids_clearAllReminders onClose_def)

text \<open>
  What the counter does give: in every state a session reaches, the id that the next
  reminder command takes from the counter is the id of no reminder of the list.
\<close>

lemma new_reminder_id_is_fresh:
  assumes "reachable s"
  shows "\<forall>r \<in> set (reminders s). r_id r \<noteq> nextId s"
  using reachable_ids [OF assms] by (auto simp: idsBelowCounter_def)

section \<open>The unit of a built command\<close>

lemma convert_none: "convertDurationToSeconds quantity TimeUnits_none = quantity"
  by (simp add: convertDurationToSeconds_def)

lemma parseUnit_token: "unitToken u \<Longrightarrow> parseUnit u \<noteq> TimeUnits_none"
  by (auto simp: unitToken_def parseUnit_def startsWith_def)

lemma built_unit:
  "built m \<Longrightarrow>
   (\<forall>t q. m \<noteq> AddReminderMessage t q TimeUnits_none) \<and> (\<forall>q. m \<noteq> Time q TimeUnits_none)"
  by (induction rule: built.induct) (simp_all add: parseUnit_token)

lemma none_unit_never_parsed:
  "parseMessage raw \<noteq> Some (AddReminderMessage t q TimeUnits_none) \<and>
   parseMessage raw \<noteq> Some (Time q TimeUnits_none)"
  using parseMessage_builds [of raw] built_unit by force

text \<open>
  Claim C4. The unit \<^verbatim>\<open>none\<close> is rejected before the conversion: \<^verbatim>\<open>parseUnit\<close> returns
  seconds, minutes or hours on every token of the unit capture group, so no command an
  intent builds carries the unit \<^verbatim>\<open>none\<close>, and the executor never converts with it.
  (Handed \<^verbatim>\<open>none\<close> all the same, the conversion returns the quantity as it is, see
  \<open>convert_none\<close>.)
\<close>

theorem none_unit_never_built:
  assumes "unitToken u" and "built message"
  shows "parseUnit u \<in> {TimeUnits_seconds, TimeUnits_minutes, TimeUnits_hours} \<and>
         (\<forall>t q. message \<noteq> AddReminderMessage t q TimeUnits_none) \<and>
         (\<forall>q. message \<noteq> Time q TimeUnits_none)"
proof -
  from assms(1) have "parseUnit u \<noteq> TimeUnits_none" by (rule parseUnit_token)
  then have "parseUnit u \<in> {TimeUnits_seconds, TimeUnits_minutes, TimeUnits_hours}"
    by (cases "parseUnit u") simp_all
  with built_unit [OF assms(2)] show ?thesis by blast
qed

theorem none_unit_never_built_witness:
  "unitToken ''Minutes'' \<and>
   built (Time (parseQuantity ''20'') (parseUnit ''Minutes'')) \<and>
   parseUnit ''Minutes'' \<in> {TimeUnits_seconds, TimeUnits_minutes, TimeUnits_hours} \<and>
   Time (parseQuantity ''20'') (parseUnit ''Minutes'') \<noteq> Time (Num 20) TimeUnits_none"
proof -
  have q: "quantityToken ''20''" by (simp add: quantityToken_def isDigit_def)
  have u: "unitToken ''Minutes''" by (simp add: unitToken_def toLowerCase_def lowerChar_def)
  have b: "built (Time (parseQuantity ''20'') (parseUnit ''Minutes''))"
    using q u by (rule built_time)
  from none_unit_never_built [OF u b] u b show ?thesis by blast
qed

section \<open>The duration memory\<close>

lemma no_time_hit:
  assumes "userModel state (rewritePronouns mtext) = Some seconds"
    and "truthyNumber seconds"
  shows "case_add_reminder_no_time now state mtext =
     (Some (scheduledReply ''Ok, I will remind you about '' (rewritePronouns mtext) seconds),
      state\<lparr>nextId := nextId state + 1,
            dialogHistory := dialogHistory state @
              [\<lparr>i_id = nextId state, i_quantity = None, i_unit = None,
                i_text = Some (rewritePronouns mtext)\<rparr>],
            timeouts := timeouts state @
              [\<lparr>t_handle = timeoutCount state, t_delay = times_number seconds 1000,
                t_callback = NoTimeCallback (rewritePronouns mtext) (nextId state)\<rparr>],
            timeoutCount := timeoutCount state + 1,
            reminders := reminders state @
              [\<lparr>r_id = nextId state, r_date = dateAfter now seconds,
                r_text = rewritePronouns mtext, r_timeout = timeoutCount state\<rparr>]\<rparr>)"
  using assms by (simp add: case_add_reminder_no_time_def Let_def setTimeout_def)

lemma truthy_convert:
  "truthyNumber q \<Longrightarrow> truthyNumber (convertDurationToSeconds q u)"
  by (cases q) (auto simp: convertDurationToSeconds_def Let_def)

text \<open>What an accepted confirmation writes: the conversion of a truthy quantity.\<close>

lemma confirm_writes:
  assumes "dialogHistory state \<noteq> []"
    and "last (dialogHistory state) =
           \<lparr>i_id = k, i_quantity = Some q, i_unit = Some u, i_text = Some t\<rparr>"
    and "t \<noteq> []" and "truthyNumber q"
  shows "executeMessage now state (Confirm True) =
    (Some ''Consider it done.'',
     state\<lparr>userModel := (userModel state)(t \<mapsto> convertDurationToSeconds q u)\<rparr>)"
  using assms by (simp add: case_confirm_def Let_def last_conv_nth)

text \<open>
  Claim C6. Let the memory map the subject, as stored after the rewrite of my and me, to
  a confirmed duration, which is the conversion of a truthy quantity. Then a reminder
  without time for that subject is not answered by the question: it gets the next id, a
  timeout of the remembered duration is set, the reminder joins the list with that
  duration, and the reply confirms the schedule.
\<close>

theorem memory_reuse:
  assumes "userModel state (rewritePronouns mtext) =
             Some (convertDurationToSeconds quantity unit)"
    and "truthyNumber quantity"
  shows "executeMessage now state (AddReminderNoTimeMessage mtext) =
     (Some (scheduledReply ''Ok, I will remind you about '' (rewritePronouns mtext)
              (convertDurationToSeconds quantity unit)),
      state\<lparr>nextId := nextId state + 1,
            dialogHistory := dialogHistory state @
              [\<lparr>i_id = nextId state, i_quantity = None, i_unit = None,
                i_text = Some (rewritePronouns mtext)\<rparr>],
            timeouts := timeouts state @
              [\<lparr>t_handle = timeoutCount state,
                t_delay = times_number (convertDurationToSeconds quantity unit) 1000,
                t_callback = NoTimeCallback (rewritePronouns mtext) (nextId state)\<rparr>],
            timeoutCount := timeoutCount state + 1,
            reminders := reminders state @
              [\<lparr>r_id = nextId state,
                r_date = dateAfter now (convertDurationToSeconds quantity unit),
                r_text = rewritePronouns mtext, r_timeout = timeoutCount state\<rparr>]\<rparr>)"
  using no_time_hit [OF assms(1) truthy_convert [OF assms(2)]] by simp

theorem memory_reuse_witness:
  "userModel
     (snd (executeMessage 2
        (snd (executeMessage 1
           (snd (executeMessage 0 openSession (AddReminderNoTimeMessage ''homework'')))
           (Time (Num 20) TimeUnits_minutes)))
        (Confirm True)))
     (rewritePronouns ''homework'') =
     Some (convertDurationToSeconds (Num 20) TimeUnits_minutes) \<and>
   truthyNumber (Num 20) \<and>
   fst (executeMessage 3
     (snd (executeMessage 2
        (snd (executeMessage 1
           (snd (executeMessage 0 openSession (AddReminderNoTimeMessage ''homework'')))
           (Time (Num 20) TimeUnits_minutes)))
        (Confirm True)))
     (AddReminderNoTimeMessage ''homework'')) =
   Some ''Ok, I will remind you about homework in 4320000 seconds.''"
proof -
  let ?s = "snd (executeMessage 2
        (snd (executeMessage 1
           (snd (executeMessage 0 openSession (AddReminderNoTimeMessage ''homework'')))
           (Time (Num 20) TimeUnits_minutes)))
        (Confirm True))"
  have h: "userModel ?s (rewritePronouns ''homework'') =
      Some (convertDurationToSeconds (Num 20) TimeUnits_minutes)"
    by (simp add: executor_defs)
  have t: "truthyNumber (Num 20)" by simp
  have r: "scheduledReply ''Ok, I will remind you about '' (rewritePronouns ''homework'')
             (convertDurationToSeconds (Num 20) TimeUnits_minutes) =
           ''Ok, I will remind you about homework in 4320000 seconds.''"
    by (simp add: executor_defs convertDurationToSeconds_def)
  from memory_reuse [OF h t, of 3] have
    "fst (executeMessage 3 ?s (AddReminderNoTimeMessage ''homework'')) =
       Some (scheduledReply ''Ok, I will remind you about '' (rewritePronouns ''homework'')
             (convertDurationToSeconds (Num 20) TimeUnits_minutes))"
    by (simp only: fst_conv)
  with h t r show ?thesis by (simp only: simp_thms)
qed

section \<open>Durations that reach the memory\<close>

lemma foldl_digits_nonneg:
  "0 \<le> acc \<Longrightarrow> list_all isDigit s \<Longrightarrow>
   0 \<le> foldl (\<lambda>acc c. acc * 10 + digitValue c) acc s"
proof (induction s arbitrary: acc)
  case Nil
  then show ?case by simp
next
  case (Cons c s)
  from Cons.prems have "isDigit c" by simp
  then have "0 \<le> digitValue c" by (auto simp: isDigit_def digitValue_def)
  with Cons.prems have "0 \<le> acc * 10 + digitValue c" by simp
  with Cons show ?case by simp
qed

lemma okQuantity_Number: "okQuantity (Number s)"
  by (simp add: Number_def okQuantity_def foldl_digits_nonneg)

lemma okQuantity_parseQuantity: "okQuantity (parseQuantity q)"
  by (simp add: parseQuantity_def okQuantity_Number) (simp add: okQuantity_def)

lemma positive_convert:
  "okQuantity q \<Longrightarrow> truthyNumber q \<Longrightarrow> positive (convertDurationToSeconds q u)"
  by (cases q) (auto simp: okQuantity_def positive_def convertDurationToSeconds_def Let_def)

lemma positive_truthy: "positive v \<Longrightarrow> truthyNumber v"
  by (cases v) (simp_all add: positive_def)

lemma built_quantity:
  "built m \<Longrightarrow>
   (case m of AddReminderMessage t q u \<Rightarrow> okQuantity q | Time q u \<Rightarrow> okQuantity q
    | _ \<Rightarrow> True)"
  by (induction rule: built.induct) (simp_all add: okQuantity_parseQuantity)

lemma invariant_add_reminder:
  "memoryInvariant s \<Longrightarrow> okQuantity q \<Longrightarrow>
   memoryInvariant (snd (case_add_reminder now s t q u))"
  by (auto simp: memoryInvariant_def case_add_reminder_def Let_def split_def)

lemma invariant_add_reminder_no_time:
  "memoryInvariant s \<Longrightarrow> memoryInvariant (snd (case_add_reminder_no_time now s t))"
  by (auto simp: memoryInvariant_def case_add_reminder_no_time_def Let_def split_def
           split: option.splits)

lemma invariant_time:
  "memoryInvariant s \<Longrightarrow> okQuantity q \<Longrightarrow> memoryInvariant (snd (case_time now s q u))"
  by (auto simp: memoryInvariant_def case_time_def Let_def split_def
           dest!: set_update_subset_insert [THEN subsetD])

lemma invariant_last_quantity:
  assumes "memoryInvariant s" and "dialogHistory s \<noteq> []"
    and "i_quantity (dialogHistory s ! (length (dialogHistory s) - 1)) = Some q"
  shows "okQuantity q"
proof -
  have "dialogHistory s ! (length (dialogHistory s) - 1) \<in> set (dialogHistory s)"
    using assms(2) by simp
  with assms(1,3) show ?thesis unfolding memoryInvariant_def by blast
qed

lemma invariant_confirm:
  assumes "memoryInvariant s" and "case_confirm s c = Some (r, s')"
  shows "memoryInvariant s'"
proof (cases "dialogHistory s = []")
  case True
  with assms show ?thesis by (simp add: case_confirm_def)
next
  case False
  note nonempty = this
  show ?thesis
  proof (cases c)
    case False
    with assms nonempty show ?thesis
      by (auto simp: case_confirm_def Let_def split: if_splits option.splits)
  next
    case True
    with assms(2) nonempty obtain t u q where
      q: "i_quantity (dialogHistory s ! (length (dialogHistory s) - 1)) = Some q"
      and tq: "truthyNumber q"
      and s': "s' = s\<lparr>userModel := (userModel s)(t \<mapsto> convertDurationToSeconds q u)\<rparr>"
      by (auto simp: case_confirm_def Let_def split: if_splits option.splits)
    from invariant_last_quantity [OF assms(1) nonempty q] tq
    have "positive (convertDurationToSeconds q u)" by (rule positive_convert)
    with assms(1) s' show ?thesis by (simp add: memoryInvariant_def)
  qed
qed

lemma invariant_clear_reminder:
  "memoryInvariant s \<Longrightarrow> memoryInvariant (snd (case_clear_reminder s mid))"
  by (auto simp: memoryInvariant_def case_clear_reminder_def Let_def split: option.splits)

lemma invariant_clearAllReminders:
  "memoryInvariant s \<Longrightarrow> memoryInvariant (clearAllReminders s)"
  by (auto simp: memoryInvariant_def clearAllReminders_def Let_def)

lemma invariant_executeMessage:
  assumes "memoryInvariant s" and "built m"
  shows "memoryInvariant (snd (executeMessage now s m))"
proof (cases m)
  case (AddReminderMessage t q u)
  with built_quantity [OF assms(2)] have "okQuantity q" by simp
  with assms(1) AddReminderMessage show ?thesis by (simp add: invariant_add_reminder)
next
  case (Time q u)
  with built_quantity [OF assms(2)] have "okQuantity q" by simp
  with assms(1) Time show ?thesis by (simp add: invariant_time)
next
  case (Confirm c)
  show ?thesis
  proof (cases "case_confirm s c")
    case None
    with assms(1) Confirm show ?thesis by (simp add: case_unknown_def)
  next
    case (Some res)
    obtain r s' where "res = (r, s')" by (cases res)
    with Some invariant_confirm [OF assms(1)] Confirm show ?thesis by simp
  qed
qed (use assms(1) in \<open>simp_all add: invariant_add_reminder_no_time invariant_clear_reminder
       invariant_clearAllReminders case_list_reminders_def case_clear_all_reminders_def
       case_unknown_def\<close>)

lemma invariant_send: "memoryInvariant (send f s) = memoryInvariant s"
  by (simp add: memoryInvariant_def send_def)

lemma invariant_onMessage:
  "memoryInvariant s \<Longrightarrow> built (parse raw) \<Longrightarrow>
   memoryInvariant (onMessage parse now raw s)"
  using invariant_executeMessage [of s "parse raw" now]
  by (simp add: onMessage_def Let_def split_def invariant_send split: option.splits)

lemma invariant_runCallback: "memoryInvariant s \<Longrightarrow> memoryInvariant (runCallback cb s)"
  by (cases cb) (simp_all add: memoryInvariant_def Let_def send_def dropReminder_def)

lemma invariant_fireTimeout: "memoryInvariant s \<Longrightarrow> memoryInvariant (fireTimeout h s)"
proof -
  assume a: "memoryInvariant s"
  then have "memoryInvariant (clearTimeout h s)" by (simp add: memoryInvariant_def)
  then show ?thesis
    by (simp add: fireTimeout_def a invariant_runCallback split: option.splits)
qed

lemma invariant_openSession: "memoryInvariant openSession"
  by (simp add: memoryInvariant_def openSession_def)

lemma reachable_invariant: "reachable s \<Longrightarrow> memoryInvariant s"
  by (induction rule: reachable.induct)
     (simp_all add: invariant_openSession invariant_onMessage invariant_fireTimeout
        invariant_clearAllReminders onClose_def)

lemma scheduledReply_not_question:
  "scheduledReply ''Ok, I will remind you about '' t seconds \<noteq>
   ''How long does your '' @ t' @ '' take?''"
  by (simp add: scheduledReply_def Let_def)

text \<open>
  Claim C10. In every state a session reaches, the durations in the memory are positive
  numbers: the only write is that of an accepted confirmation, behind the test that the
  quantity is truthy, and the quantities of built commands are not negative. So a
  reminder without time whose subject the memory has passes the test on the seconds read:
  it is scheduled with them and the reply is the confirmation, never the question.
\<close>

theorem remembered_durations_positive:
  assumes "reachable state"
  shows "(\<forall>subject v. userModel state subject = Some v \<longrightarrow> (\<exists>n. v = Num n \<and> 0 < n)) \<and>
         (\<forall>now mtext v. userModel state (rewritePronouns mtext) = Some v \<longrightarrow>
            fst (executeMessage now state (AddReminderNoTimeMessage mtext)) =
              Some (scheduledReply ''Ok, I will remind you about '' (rewritePronouns mtext) v) \<and>
            fst (executeMessage now state (AddReminderNoTimeMessage mtext)) \<noteq>
              Some (''How long does your '' @ rewritePronouns mtext @ '' take?'') \<and>
            reminders (snd (executeMessage now state (AddReminderNoTimeMessage mtext))) =
              reminders state @
                [\<lparr>r_id = nextId state, r_date = dateAfter now v,
                  r_text = rewritePronouns mtext, r_timeout = timeoutCount state\<rparr>])"
proof -
  from assms have i: "memoryInvariant state" by (rule reachable_invariant)
  have pos: "positive v" if "userModel state k = Some v" for k v
    using i that by (simp add: memoryInvariant_def)
  have 1: "\<forall>subject v. userModel state subject = Some v \<longrightarrow> (\<exists>n. v = Num n \<and> 0 < n)"
  proof (intro allI impI)
    fix k v assume "userModel state k = Some v"
    then have "positive v" by (rule pos)
    then show "\<exists>n. v = Num n \<and> 0 < n" by (cases v) (simp_all add: positive_def)
  qed
  have 2: "fst (executeMessage now state (AddReminderNoTimeMessage mtext)) =
              Some (scheduledReply ''Ok, I will remind you about '' (rewritePronouns mtext) v) \<and>
            fst (executeMessage now state (AddReminderNoTimeMessage mtext)) \<noteq>
              Some (''How long does your '' @ rewritePronouns mtext @ '' take?'') \<and>
            reminders (snd (executeMessage now state (AddReminderNoTimeMessage mtext))) =
              reminders state @
                [\<lparr>r_id = nextId state, r_date = dateAfter now v,
                  r_text = rewritePronouns mtext, r_timeout = timeoutCount state\<rparr>]"
    if h: "userModel state (rewritePronouns mtext) = Some v" for now mtext v
  proof -
    have "truthyNumber v" using pos [OF h] by (rule positive_truthy)
    from no_time_hit [OF h this, of now] show ?thesis
      by (simp del: append.simps list.simps add: scheduledReply_not_question)
  qed
  from 1 2 show ?thesis by blast
qed

theorem remembered_durations_positive_witness:
  "reachable
     (onMessage (\<lambda>raw. Confirm True) 2 ''yes''
       (onMessage (\<lambda>raw. Time (parseQuantity ''20'') (parseUnit ''minutes'')) 1 ''20 minutes''
         (onMessage (\<lambda>raw. AddReminderNoTimeMessage ''homework'') 0
            ''remind me about my homework'' openSession))) \<and>
   userModel
     (onMessage (\<lambda>raw. Confirm True) 2 ''yes''
       (onMessage (\<lambda>raw. Time (parseQuantity ''20'') (parseUnit ''minutes'')) 1 ''20 minutes''
         (onMessage (\<lambda>raw. AddReminderNoTimeMessage ''homework'') 0
            ''remind me about my homework'' openSession)))
     (rewritePronouns ''homework'') = Some (Num 4320000) \<and>
   (0::int) < 4320000 \<and>
   fst (executeMessage 3
     (onMessage (\<lambda>raw. Confirm True) 2 ''yes''
       (onMessage (\<lambda>raw. Time (parseQuantity ''20'') (parseUnit ''minutes'')) 1 ''20 minutes''
         (onMessage (\<lambda>raw. AddReminderNoTimeMessage ''homework'') 0
            ''remind me about my homework'' openSession)))
     (AddReminderNoTimeMessage ''homework'')) =
   Some ''Ok, I will remind you about homework in 4320000 seconds.''"
proof -
  let ?s1 = "onMessage (\<lambda>raw. AddReminderNoTimeMessage ''homework'') 0
            ''remind me about my homework'' openSession"
  let ?s2 = "onMessage (\<lambda>raw. Time (parseQuantity ''20'') (parseUnit ''minutes'')) 1
            ''20 minutes'' ?s1"
  let ?s3 = "onMessage (\<lambda>raw. Confirm True) 2 ''yes'' ?s2"
  have b2: "built (Time (parseQuantity ''20'') (parseUnit ''minutes''))"
    by (rule built_time)
       (simp_all add: quantityToken_def unitToken_def isDigit_def toLowerCase_def
          lowerChar_def)
  have r1: "reachable ?s1"
    by (rule reach_message [where parse = "\<lambda>raw. AddReminderNoTimeMessage ''homework''"])
       (rule reach_open, rule built_add_reminder_no_time)
  have r2: "reachable ?s2"
    by (rule reach_message
          [where parse = "\<lambda>raw. Time (parseQuantity ''20'') (parseUnit ''minutes'')"])
       (rule r1, rule b2)
  have r3: "reachable ?s3"
    by (rule reach_message [where parse = "\<lambda>raw. Confirm True"])
       (rule r2, rule built_confirm)
  have m: "userModel ?s3 (rewritePronouns ''homework'') = Some (Num 4320000)"
    by (simp add: onMessage_def send_def executor_defs normalizer_defs)
  have r: "scheduledReply ''Ok, I will remind you about '' (rewritePronouns ''homework'')
             (Num 4320000) = ''Ok, I will remind you about homework in 4320000 seconds.''"
    by (simp add: executor_defs)
  from remembered_durations_positive [OF r3] m
  have "fst (executeMessage 3 ?s3 (AddReminderNoTimeMessage ''homework'')) =
     Some (scheduledReply ''Ok, I will remind you about '' (rewritePronouns ''homework'')
            (Num 4320000))"
    by blast
  with r3 m r show ?thesis by (simp only: simp_thms rel_simps)
qed

end
